theory Spec2Isabelle
  imports Main "HOL-Library.Sublist"
begin

section \<open>Python values shared by both modules\<close>

text \<open>
  Exceptions are values. Only the distinctions the source makes are kept: the class an
  \<^verbatim>\<open>except\<close> clause selects on, and the text of \<^verbatim>\<open>str(e)\<close> where the source
  searches it. \<open>ModuleNotFoundError\<close> is a subclass of \<open>ImportError\<close>; \<open>SystemExit\<close> is
  not a subclass of \<open>Exception\<close>.
\<close>

datatype exn_class =
    OperationalError
  | ImportError
  | ModuleNotFoundError
  | AttributeError
  | TypeError
  | SystemExit
  | OtherError

datatype exn = Exn exn_class string

fun exn_cls :: "exn \<Rightarrow> exn_class" where
  "exn_cls (Exn c m) = c"

fun exn_str :: "exn \<Rightarrow> string" where
  "exn_str (Exn c m) = m"

definition is_ImportError :: "exn \<Rightarrow> bool" where
  "is_ImportError e = (exn_cls e = ImportError \<or> exn_cls e = ModuleNotFoundError)"

definition is_Exception :: "exn \<Rightarrow> bool" where
  "is_Exception e = (exn_cls e \<noteq> SystemExit)"

text \<open>Python's \<^verbatim>\<open>needle in haystack\<close> on strings: a contiguous occurrence.\<close>

fun str_contains :: "string \<Rightarrow> string \<Rightarrow> bool" where
  "str_contains needle [] = (needle = [])"
| "str_contains needle (c # cs) = (prefix needle (c # cs) \<or> str_contains needle cs)"

section \<open>session\_management.py\<close>

subsection \<open>Configuration, engines, the manager\<close>

text \<open>
  \<open>PostgresConfig\<close> and \<open>ModuleConfig\<close> live in \<open>sql_db_utils.config\<close>, which is not among
  the sources; the values the code reads are parameters.
\<close>

record config =
  PG_MAX_RETRY :: nat
  PG_ENABLE_POOLING :: bool
  PG_ANTI_PERSISTENT :: bool
  MODULE_NAME :: string

datatype isolation = AUTOCOMMIT | TRANSACTIONAL

datatype poolclass = QueuePool | NullPool

text \<open>
  An \<open>Engine\<close> object. \<open>engine_id\<close> is the object's identity: \<open>create_engine\<close> builds
  a new object at every call. \<open>engine_db\<close> is the database part of the URL.
\<close>

record engine =
  engine_id :: nat
  engine_url :: string
  engine_db :: string
  engine_pool :: poolclass
  isolation_level :: isolation

text \<open>What an \<open>auto\<close> action returns: one statement, or a list of statements.\<close>

datatype 's hook_result = Statement 's | Statements "'s list"

datatype ('h, 's) event =
    EngineCreated engine
  | ConnectAttempt engine nat
  | LogRetry nat
  | LogConnectionFailed
  | DependenciesCreated engine
  | SessionCreated engine
  | AutoCalled engine 'h "string option"
  | Executed engine 's
  | ManualCalled engine 'h "string option"
  | PostcreateCompleted string

text \<open>
  The world outside the manager: the counter that names new objects, the number of
  connection attempts made so far, what the database server holds durably (statement and
  database), and the trace of what the code did.
\<close>

record ('h, 's) world =
  next_id :: nat
  attempts :: nat
  durable :: "(string \<times> 's) list"
  trace :: "('h, 's) event list"

text \<open>
  What one pass through the \<^verbatim>\<open>try\<close> body of \<open>_ensure_engine_connection\<close> does:
  \<open>database_exists\<close>, \<open>create_database\<close>, \<open>connect\<close> and \<open>SELECT 1\<close> all succeed, or
  one of them raises.
\<close>

datatype attempt = Connected | Raises exn

text \<open>
  The collaborators whose code is not in the file: the database server, the callables
  registered as hooks, \<open>create_default_psql_dependencies\<close>.
\<close>

record ('h, 's) env =
  probe :: "nat \<Rightarrow> attempt"
  dependencies_raise :: "engine \<Rightarrow> exn option"
  auto_fn :: "'h \<Rightarrow> string option \<Rightarrow> exn + 's hook_result"
  manual_fn :: "'h \<Rightarrow> string option \<Rightarrow> 's list \<times> exn option"
  statement_raises :: "'s \<Rightarrow> exn option"

record 'h manager =
  db_engines :: "string \<rightharpoonup> engine"
  database_uri :: string
  postcreate_auto :: "string \<rightharpoonup> 'h list"
  postcreate_manual :: "string \<rightharpoonup> 'h list"

definition init_manager :: "string \<Rightarrow> 'h manager" where
  "init_manager uri =
     \<lparr>db_engines = Map.empty, database_uri = uri,
      postcreate_auto = Map.empty, postcreate_manual = Map.empty\<rparr>"

definition emit :: "('h, 's) event \<Rightarrow> ('h, 's) world \<Rightarrow> ('h, 's) world" where
  "emit ev w = w\<lparr>trace := trace w @ [ev]\<rparr>"

text \<open>\<^verbatim>\<open>f"{tenant_id}__{database}" if tenant_id else database\<close>: \<open>None\<close> and the empty
  string are both false.\<close>

definition get_fully_qualified_db :: "string \<Rightarrow> string option \<Rightarrow> string" where
  "get_fully_qualified_db database tenant_id =
     (case tenant_id of
        None \<Rightarrow> database
      | Some t \<Rightarrow> if t = [] then database else t @ ''__'' @ database)"

subsection \<open>\_ensure\_engine\_connection\<close>

text \<open>
  The \<^verbatim>\<open>for _ in range(PG_MAX_RETRY)\<close> loop, as recursion over the indices still to run.
  A success leaves the loop (\<^verbatim>\<open>break\<close>). An \<open>OperationalError\<close> whose text lacks
  \<open>server login has been failing\<close> is logged at level info and the loop continues; one
  whose text has it is logged at level error, and the loop body ends there, so the
  \<^verbatim>\<open>for\<close> goes on to the next index as well. Any other exception leaves the function.
\<close>

fun ensure_loop ::
  "('h, 's) env \<Rightarrow> engine \<Rightarrow> nat list \<Rightarrow> ('h, 's) world \<Rightarrow> exn option \<times> ('h, 's) world" where
  "ensure_loop en e [] w = (None, w)"
| "ensure_loop en e (i # is) w =
     (let w1 = emit (ConnectAttempt e i) (w\<lparr>attempts := Suc (attempts w)\<rparr>) in
      case probe en (attempts w) of
        Connected \<Rightarrow> (None, w1)
      | Raises x \<Rightarrow>
          if exn_cls x = OperationalError then
            if \<not> str_contains ''server login has been failing'' (exn_str x)
            then ensure_loop en e is (emit (LogRetry i) w1)
            else ensure_loop en e is (emit LogConnectionFailed w1)
          else (Some x, w1))"

definition ensure_engine_connection ::
  "config \<Rightarrow> ('h, 's) env \<Rightarrow> engine \<Rightarrow> ('h, 's) world \<Rightarrow> exn option \<times> ('h, 's) world" where
  "ensure_engine_connection cfg en e w = ensure_loop en e [0..<PG_MAX_RETRY cfg] w"

subsection \<open>The postcreate registry\<close>

text \<open>
  \<open>raw_db: str | List[str]\<close>. The two callers pass the names of the two hook tables, so
  the table is chosen by a two-valued type.
\<close>

datatype raw_db_arg = Name string | Names "string list"

datatype store_name = Store_postcreate_auto | Store_postcreate_manual

datatype 'h pyval = PyNone | PyFunction 'h

definition get_store :: "'h manager \<Rightarrow> store_name \<Rightarrow> (string \<rightharpoonup> 'h list)" where
  "get_store m s =
     (case s of Store_postcreate_auto \<Rightarrow> postcreate_auto m
              | Store_postcreate_manual \<Rightarrow> postcreate_manual m)"

definition set_store :: "store_name \<Rightarrow> (string \<rightharpoonup> 'h list) \<Rightarrow> 'h manager \<Rightarrow> 'h manager" where
  "set_store s st m =
     (case s of Store_postcreate_auto \<Rightarrow> m\<lparr>postcreate_auto := st\<rparr>
              | Store_postcreate_manual \<Rightarrow> m\<lparr>postcreate_manual := st\<rparr>)"

text \<open>\<^verbatim>\<open>l = store.get(db, []); l.append(func); store[db] = l\<close>\<close>

definition store_append :: "(string \<rightharpoonup> 'h list) \<Rightarrow> string \<Rightarrow> 'h \<Rightarrow> (string \<rightharpoonup> 'h list)" where
  "store_append st db func = st(db \<mapsto> (case st db of None \<Rightarrow> [] | Some l \<Rightarrow> l) @ [func])"

fun store_append_all :: "(string \<rightharpoonup> 'h list) \<Rightarrow> string list \<Rightarrow> 'h \<Rightarrow> (string \<rightharpoonup> 'h list)" where
  "store_append_all st [] func = st"
| "store_append_all st (db # dbs) func = store_append_all (store_append st db func) dbs func"

text \<open>
  The inner \<open>decorator\<close>: it updates the table and has no \<^verbatim>\<open>return\<close>, so its value is
  \<open>None\<close>.
\<close>

definition decorator ::
  "raw_db_arg \<Rightarrow> store_name \<Rightarrow> 'h \<Rightarrow> 'h manager \<Rightarrow> 'h pyval \<times> 'h manager" where
  "decorator raw_db s func m =
     (case raw_db of
        Names dbs \<Rightarrow> (PyNone, set_store s (store_append_all (get_store m s) dbs func) m)
      | Name db \<Rightarrow> (PyNone, set_store s (store_append (get_store m s) db func) m))"

definition postcreate_decorator ::
  "raw_db_arg \<Rightarrow> store_name \<Rightarrow> ('h \<Rightarrow> 'h manager \<Rightarrow> 'h pyval \<times> 'h manager)" where
  "postcreate_decorator raw_db s = decorator raw_db s"

definition register_postcreate ::
  "raw_db_arg \<Rightarrow> ('h \<Rightarrow> 'h manager \<Rightarrow> 'h pyval \<times> 'h manager)" where
  "register_postcreate raw_db = postcreate_decorator raw_db Store_postcreate_auto"

definition register_postcreate_manual ::
  "raw_db_arg \<Rightarrow> ('h \<Rightarrow> 'h manager \<Rightarrow> 'h pyval \<times> 'h manager)" where
  "register_postcreate_manual raw_db = postcreate_decorator raw_db Store_postcreate_manual"

text \<open>
  \<^verbatim>\<open>@dec\<close> above \<^verbatim>\<open>def name(...)\<close> is \<^verbatim>\<open>name = dec(function)\<close>: the caller's
  namespace binds the name to what the decorator returned.
\<close>

definition decorated_def ::
  "('h \<Rightarrow> 'h manager \<Rightarrow> 'h pyval \<times> 'h manager) \<Rightarrow> string \<Rightarrow> 'h \<Rightarrow>
   (string \<rightharpoonup> 'h pyval) \<times> 'h manager \<Rightarrow> (string \<rightharpoonup> 'h pyval) \<times> 'h manager" where
  "decorated_def dec name func st =
     (case dec func (snd st) of (r, m') \<Rightarrow> ((fst st)(name \<mapsto> r), m'))"

definition names_of :: "raw_db_arg \<Rightarrow> string list" where
  "names_of raw_db = (case raw_db of Name db \<Rightarrow> [db] | Names dbs \<Rightarrow> dbs)"

subsection \<open>run\_postcreate\<close>

text \<open>
  A \<open>Session\<close> bound to an engine holds the work of its open transaction in \<open>pending\<close>.
  On an engine whose isolation level is \<open>AUTOCOMMIT\<close> the driver commits every statement as
  it is executed, and the session's later commit or rollback finds nothing to act on; on any
  other level the statement stays pending until the session commits, and a rollback drops it.
  A statement that raises changes nothing.
\<close>

type_synonym ('h, 's) sess = "'s list \<times> ('h, 's) world"

definition session_execute ::
  "('h, 's) env \<Rightarrow> engine \<Rightarrow> 's \<Rightarrow> ('h, 's) sess \<Rightarrow> exn option \<times> ('h, 's) sess" where
  "session_execute en e st s =
     (case statement_raises en st of
        Some x \<Rightarrow> (Some x, s)
      | None \<Rightarrow>
          (let w1 = emit (Executed e st) (snd s) in
           if isolation_level e = AUTOCOMMIT
           then (None, fst s, w1\<lparr>durable := durable w1 @ [(engine_db e, st)]\<rparr>)
           else (None, fst s @ [st], w1)))"

definition session_commit :: "engine \<Rightarrow> ('h, 's) sess \<Rightarrow> ('h, 's) sess" where
  "session_commit e s =
     ([], (snd s)\<lparr>durable := durable (snd s) @ map (Pair (engine_db e)) (fst s)\<rparr>)"

definition session_rollback :: "('h, 's) sess \<Rightarrow> ('h, 's) sess" where
  "session_rollback s = ([], snd s)"

text \<open>\<^verbatim>\<open>for statement in result: session.execute(statement)\<close>\<close>

fun execute_all ::
  "('h, 's) env \<Rightarrow> engine \<Rightarrow> 's list \<Rightarrow> ('h, 's) sess \<Rightarrow> exn option \<times> ('h, 's) sess" where
  "execute_all en e [] s = (None, s)"
| "execute_all en e (st # sts) s =
     (case session_execute en e st s of
        (Some x, s1) \<Rightarrow> (Some x, s1)
      | (None, s1) \<Rightarrow> execute_all en e sts s1)"

text \<open>The body of the \<^verbatim>\<open>with session.begin()\<close> block: the loop over the \<open>auto\<close> actions.\<close>

fun run_auto ::
  "('h, 's) env \<Rightarrow> engine \<Rightarrow> string option \<Rightarrow> 'h list \<Rightarrow> ('h, 's) sess \<Rightarrow>
   exn option \<times> ('h, 's) sess" where
  "run_auto en e tenant_id [] s = (None, s)"
| "run_auto en e tenant_id (f # fs) s =
     (let s0 = (fst s, emit (AutoCalled e f tenant_id) (snd s)) in
      case auto_fn en f tenant_id of
        Inl x \<Rightarrow> (Some x, s0)
      | Inr (Statements sts) \<Rightarrow>
          (case execute_all en e sts s0 of
             (Some x, s1) \<Rightarrow> (Some x, s1)
           | (None, s1) \<Rightarrow> run_auto en e tenant_id fs s1)
      | Inr (Statement st) \<Rightarrow>
          (case session_execute en e st s0 of
             (Some x, s1) \<Rightarrow> (Some x, s1)
           | (None, s1) \<Rightarrow> run_auto en e tenant_id fs s1))"

text \<open>
  \<^verbatim>\<open>with session.begin(): ...\<close>: the transaction commits when the body ends, and rolls
  back and re-raises when the body raises.
\<close>

definition auto_block ::
  "('h, 's) env \<Rightarrow> engine \<Rightarrow> string option \<Rightarrow> 'h list \<Rightarrow> ('h, 's) sess \<Rightarrow>
   exn option \<times> ('h, 's) sess" where
  "auto_block en e tenant_id fs s =
     (case run_auto en e tenant_id fs s of
        (Some x, s1) \<Rightarrow> (Some x, session_rollback s1)
      | (None, s1) \<Rightarrow> (None, session_commit e s1))"

text \<open>
  A \<open>manual\<close> action receives the session: it executes statements through it and may
  raise afterwards.
\<close>

fun run_manual ::
  "('h, 's) env \<Rightarrow> engine \<Rightarrow> string option \<Rightarrow> 'h list \<Rightarrow> ('h, 's) sess \<Rightarrow>
   exn option \<times> ('h, 's) sess" where
  "run_manual en e tenant_id [] s = (None, s)"
| "run_manual en e tenant_id (f # fs) s =
     (let s0 = (fst s, emit (ManualCalled e f tenant_id) (snd s)) in
      case execute_all en e (fst (manual_fn en f tenant_id)) s0 of
        (Some x, s1) \<Rightarrow> (Some x, s1)
      | (None, s1) \<Rightarrow>
          (case snd (manual_fn en f tenant_id) of
             Some x \<Rightarrow> (Some x, s1)
           | None \<Rightarrow> run_manual en e tenant_id fs s1))"

definition dict_get_list :: "(string \<rightharpoonup> 'h list) \<Rightarrow> string \<Rightarrow> 'h list" where
  "dict_get_list d k = (case d k of None \<Rightarrow> [] | Some l \<Rightarrow> l)"

text \<open>
  An exception leaves \<open>run_postcreate\<close> before \<open>session.commit()\<close>; the session is then
  dropped with its pending work.
\<close>

definition run_postcreate ::
  "('h, 's) env \<Rightarrow> 'h manager \<Rightarrow> engine \<Rightarrow> string \<Rightarrow> string option \<Rightarrow> ('h, 's) world \<Rightarrow>
   exn option \<times> ('h, 's) world" where
  "run_postcreate en m e raw_db tenant_id w =
     (let session = ([], emit (SessionCreated e) w) in
      case auto_block en e tenant_id (dict_get_list (postcreate_auto m) raw_db) session of
        (Some x, s1) \<Rightarrow> (Some x, snd s1)
      | (None, s1) \<Rightarrow>
          (case run_manual en e tenant_id (dict_get_list (postcreate_manual m) raw_db) s1 of
             (Some x, s2) \<Rightarrow> (Some x, snd s2)
           | (None, s2) \<Rightarrow>
               (None, emit (PostcreateCompleted raw_db) (snd (session_commit e s2)))))"

subsection \<open>\_get\_engine\<close>

text \<open>\<open>create_engine\<close> builds a new object; both calls in the source fix the isolation
  level to \<open>AUTOCOMMIT\<close> and differ in the pool.\<close>

definition create_engine ::
  "string \<Rightarrow> string \<Rightarrow> poolclass \<Rightarrow> isolation \<Rightarrow> ('h, 's) world \<Rightarrow> engine \<times> ('h, 's) world" where
  "create_engine url db pool level w =
     (let e = \<lparr>engine_id = next_id w, engine_url = url, engine_db = db,
                engine_pool = pool, isolation_level = level\<rparr>
      in (e, emit (EngineCreated e) (w\<lparr>next_id := Suc (next_id w)\<rparr>)))"

text \<open>
  The result is the engine or the exception that left the function, with the manager and
  the world as the call left them. An \<open>Engine\<close> object is true, so the cache lookup
  misses exactly when the key is absent.
\<close>

definition get_engine ::
  "config \<Rightarrow> ('h, 's) env \<Rightarrow> string \<Rightarrow> string option \<Rightarrow> 'h manager \<times> ('h, 's) world \<Rightarrow>
   (exn + engine) \<times> 'h manager \<times> ('h, 's) world" where
  "get_engine cfg en database tenant_id st =
     (let m = fst st; w = snd st;
          qualified_db_name = get_fully_qualified_db database tenant_id in
      case db_engines m qualified_db_name of
        Some engine \<Rightarrow> (Inr engine, m, w)
      | None \<Rightarrow>
          (let url = database_uri m @ ''/'' @ qualified_db_name
                       @ ''?application_name='' @ MODULE_NAME cfg;
               ew = (if PG_ENABLE_POOLING cfg
                     then create_engine url qualified_db_name QueuePool AUTOCOMMIT w
                     else create_engine url qualified_db_name NullPool AUTOCOMMIT w);
               engine = fst ew
           in case ensure_engine_connection cfg en engine (snd ew) of
                (Some x, w2) \<Rightarrow> (Inl x, m, w2)
              | (None, w2) \<Rightarrow>
                  (let m1 = (if \<not> PG_ANTI_PERSISTENT cfg
                             then m\<lparr>db_engines := (db_engines m)(qualified_db_name \<mapsto> engine)\<rparr>
                             else m)
                   in case dependencies_raise en engine of
                        Some x \<Rightarrow> (Inl x, m1, w2)
                      | None \<Rightarrow>
                          (case run_postcreate en m1 engine database tenant_id
                                  (emit (DependenciesCreated engine) w2) of
                             (Some x, w4) \<Rightarrow> (Inl x, m1, w4)
                           | (None, w4) \<Rightarrow> (Inr engine, m1, w4)))))"

text \<open>Any number of calls on one manager, one after the other.\<close>

fun get_engine_calls ::
  "config \<Rightarrow> ('h, 's) env \<Rightarrow> (string \<times> string option) list \<Rightarrow>
   'h manager \<times> ('h, 's) world \<Rightarrow> 'h manager \<times> ('h, 's) world" where
  "get_engine_calls cfg en [] st = st"
| "get_engine_calls cfg en (c # cs) st =
     get_engine_calls cfg en cs (snd (get_engine cfg en (fst c) (snd c) st))"

subsection \<open>Reading the trace\<close>

text \<open>The sessions \<open>run_postcreate\<close> opened on engines of database \<open>q\<close>, the calls of
  \<open>auto\<close> actions on such engines, and the manual ones.\<close>

fun session_of :: "string \<Rightarrow> ('h, 's) event \<Rightarrow> engine list" where
  "session_of q (SessionCreated e) = (if engine_db e = q then [e] else [])"
| "session_of q ev = []"

fun auto_call_of :: "string \<Rightarrow> ('h, 's) event \<Rightarrow> ('h \<times> string option) list" where
  "auto_call_of q (AutoCalled e h t) = (if engine_db e = q then [(h, t)] else [])"
| "auto_call_of q ev = []"

fun manual_call_of :: "('h, 's) event \<Rightarrow> 'h list" where
  "manual_call_of (ManualCalled e h t) = [h]"
| "manual_call_of ev = []"

definition proj :: "(('h, 's) event \<Rightarrow> 'a list) \<Rightarrow> ('h, 's) world \<Rightarrow> 'a list" where
  "proj f w = concat (map f (trace w))"

definition postcreate_runs :: "string \<Rightarrow> ('h, 's) world \<Rightarrow> nat" where
  "postcreate_runs q w = length (proj (session_of q) w)"

definition auto_calls :: "string \<Rightarrow> ('h, 's) world \<Rightarrow> ('h \<times> string option) list" where
  "auto_calls q w = proj (auto_call_of q) w"

definition qualified_name :: "string \<times> string option \<Rightarrow> string" where
  "qualified_name c = get_fully_qualified_db (fst c) (snd c)"

text \<open>
  Collaborators that never make \<open>_get_engine\<close> raise: connection attempts succeed or fail
  with an \<open>OperationalError\<close>, and neither the dependency bootstrap, nor an action, nor a
  statement raises.
\<close>

definition benign :: "('h, 's) env \<Rightarrow> bool" where
  "benign en =
     ((\<forall>n. case probe en n of Connected \<Rightarrow> True | Raises x \<Rightarrow> exn_cls x = OperationalError)
      \<and> (\<forall>e. dependencies_raise en e = None)
      \<and> (\<forall>h t. case auto_fn en h t of Inl x \<Rightarrow> False | Inr r \<Rightarrow> True)
      \<and> (\<forall>h t. snd (manual_fn en h t) = None)
      \<and> (\<forall>s. statement_raises en s = None))"

text \<open>
  The statements of the \<open>auto\<close> actions that execute before the first failure: an action
  that raises contributes nothing, a statement that raises ends the list.
\<close>

definition statements_of :: "'s hook_result \<Rightarrow> 's list" where
  "statements_of r = (case r of Statement st \<Rightarrow> [st] | Statements sts \<Rightarrow> sts)"

fun executed_before_failure :: "('h, 's) env \<Rightarrow> string option \<Rightarrow> 'h list \<Rightarrow> 's list" where
  "executed_before_failure en tenant_id [] = []"
| "executed_before_failure en tenant_id (f # fs) =
     (case auto_fn en f tenant_id of
        Inl x \<Rightarrow> []
      | Inr r \<Rightarrow>
          if \<exists>st \<in> set (statements_of r). statement_raises en st \<noteq> None
          then takeWhile (\<lambda>st. statement_raises en st = None) (statements_of r)
          else statements_of r @ executed_before_failure en tenant_id fs)"

text \<open>
  Names for two pieces of \<open>_get_engine\<close>: the engine a cache miss builds, and the manager
  after the \<^verbatim>\<open>if not PG_ANTI_PERSISTENT\<close> statement.
\<close>

definition fresh_engine ::
  "config \<Rightarrow> 'h manager \<Rightarrow> string \<Rightarrow> ('h, 's) world \<Rightarrow> engine \<times> ('h, 's) world" where
  "fresh_engine cfg m q w =
     create_engine (database_uri m @ ''/'' @ q @ ''?application_name='' @ MODULE_NAME cfg) q
       (if PG_ENABLE_POOLING cfg then QueuePool else NullPool) AUTOCOMMIT w"

definition remember :: "config \<Rightarrow> 'h manager \<Rightarrow> string \<Rightarrow> engine \<Rightarrow> 'h manager" where
  "remember cfg m q e =
     (if \<not> PG_ANTI_PERSISTENT cfg then m\<lparr>db_engines := (db_engines m)(q \<mapsto> e)\<rparr> else m)"

definition hook_calls :: "'h manager \<Rightarrow> string \<times> string option \<Rightarrow> ('h \<times> string option) list" where
  "hook_calls m c = map (\<lambda>h. (h, snd c)) (dict_get_list (postcreate_auto m) (fst c))"

text \<open>
  The calls of \<open>manual\<close> actions on engines of database \<open>q\<close>, each with the tenant it
  received, and the calls the \<open>manual\<close> registrations of a manager prescribe for one run of
  \<open>run_postcreate\<close>: \<^verbatim>\<open>for postcreate_func in self._postcreate_manual.get(raw_db, [])\<close>.
\<close>

fun manual_call_for :: "string \<Rightarrow> ('h, 's) event \<Rightarrow> ('h \<times> string option) list" where
  "manual_call_for q (ManualCalled e h t) = (if engine_db e = q then [(h, t)] else [])"
| "manual_call_for q ev = []"

definition manual_calls :: "string \<Rightarrow> ('h, 's) world \<Rightarrow> ('h \<times> string option) list" where
  "manual_calls q w = proj (manual_call_for q) w"

definition manual_hook_calls ::
  "'h manager \<Rightarrow> string \<times> string option \<Rightarrow> ('h \<times> string option) list" where
  "manual_hook_calls m c = map (\<lambda>h. (h, snd c)) (dict_get_list (postcreate_manual m) (fst c))"

text \<open>
  The exception that ends the loop over the \<open>auto\<close> actions, if any: the first action that
  raises, or the first statement that does.
\<close>

fun first_failure :: "('h, 's) env \<Rightarrow> string option \<Rightarrow> 'h list \<Rightarrow> exn option" where
  "first_failure en tenant_id [] = None"
| "first_failure en tenant_id (f # fs) =
     (case auto_fn en f tenant_id of
        Inl x \<Rightarrow> Some x
      | Inr r \<Rightarrow>
          (case find (\<lambda>st. statement_raises en st \<noteq> None) (statements_of r) of
             Some st \<Rightarrow> statement_raises en st
           | None \<Rightarrow> first_failure en tenant_id fs))"

text \<open>A server that can be reached and a dependency bootstrap that does not raise.\<close>

definition reachable :: "('h, 's) env \<Rightarrow> bool" where
  "reachable en =
     ((\<forall>n. case probe en n of Connected \<Rightarrow> True | Raises x \<Rightarrow> exn_cls x = OperationalError)
      \<and> (\<forall>e. dependencies_raise en e = None))"

section \<open>asyncio/declarative\_utils.py\<close>

subsection \<open>Modules, files and the collaborators\<close>

text \<open>
  \<open>PathConfig.DECLARATIVES_PATH\<close> and \<open>ModuleConfig.DEFER_GEN_REFRESH\<close> come from
  \<open>sql_db_utils.config\<close>, which is not among the sources; they are parameters.
\<close>

record dconfig =
  DECLARATIVES_PATH :: string
  DEFER_GEN_REFRESH :: bool

text \<open>
  A loaded module object: its identity, its name in \<open>sys.modules\<close>, the source text it
  was executed from, and its attributes (the bindings it exposes).
\<close>

record 'b py_module =
  mod_id :: nat
  mod_name :: string
  mod_source :: string
  mod_attrs :: "string \<rightharpoonup> 'b"

text \<open>\<open>self.declarative_module\<close> is \<open>None\<close>, the import path (a \<open>str\<close>) or a module.\<close>

datatype 'b modref = MNone | MPath string | MLoaded "'b py_module"

record 'b decl_utils =
  util_id :: nat
  raw_database :: string
  tenant_id :: string
  schema :: string
  raw_db :: bool
  declarative_module :: "'b modref"

datatype devent =
    MadeDirectory string
  | WroteFile string
  | GenerationAttempted string "string option" string
  | RemovedBase string string
  | ImportModule string
  | ReloadModule string
  | CancelledTasks
  | SysExit

text \<open>
  What the \<^verbatim>\<open>try\<close> block of \<open>_prepare_declarative_file\<close> does: it raises before the
  artifact is opened for writing (the import of the code generator, \<open>get_session\<close>, the
  reflection), or it raises after the artifact was opened (which creates or truncates it),
  or the generator's text is written.
\<close>

datatype gen_outcome = ReflectRaises exn | GenerateRaises exn | Generated string

text \<open>
  The collaborators: the generator with the database behind it (asked once per generation
  attempt), the execution of a module's source (asked once per execution), what the task
  cancellation before \<open>sys.exit\<close> raises if anything, \<open>pydantic\<close>'s \<open>to_pascal\<close>, and the
  attributes of a \<open>str\<close> object.
\<close>

record 'b denv =
  generation :: "nat \<Rightarrow> gen_outcome"
  loader :: "nat \<Rightarrow> string \<Rightarrow> exn + (string \<rightharpoonup> 'b)"
  cancel_tasks :: "exn option"
  to_pascal :: "string \<Rightarrow> string"
  str_attr :: "string \<rightharpoonup> 'b"

text \<open>
  The process: the file system, \<open>sys.modules\<close>, the bases \<open>base_class_generator\<close> has
  registered, the global \<open>declarative_utils\<close> table, the counters and the trace.
\<close>

record 'b dworld =
  dirs :: "string set"
  files :: "string \<rightharpoonup> string"
  sys_modules :: "string \<rightharpoonup> 'b py_module"
  bases :: "(string \<times> string) set"
  declarative_utils :: "string \<rightharpoonup> 'b decl_utils"
  next_obj :: nat
  gens :: nat
  execs :: nat
  dtrace :: "devent list"

definition demit :: "devent \<Rightarrow> 'b dworld \<Rightarrow> 'b dworld" where
  "demit ev w = w\<lparr>dtrace := dtrace w @ [ev]\<rparr>"

definition write_file :: "string \<Rightarrow> string \<Rightarrow> 'b dworld \<Rightarrow> 'b dworld" where
  "write_file p text w = demit (WroteFile p) (w\<lparr>files := (files w)(p \<mapsto> text)\<rparr>)"

definition tenant_directory :: "dconfig \<Rightarrow> 'b decl_utils \<Rightarrow> string" where
  "tenant_directory cfg u = DECLARATIVES_PATH cfg @ ''/'' @ tenant_id u"

text \<open>\<^verbatim>\<open>declarative_tenant_directory / f"async_{self.raw_database}_{self.schema}.py"\<close>\<close>

definition declarative_file :: "dconfig \<Rightarrow> 'b decl_utils \<Rightarrow> string" where
  "declarative_file cfg u =
     tenant_directory cfg u @ ''/async_'' @ raw_database u @ ''_'' @ schema u @ ''.py''"

text \<open>\<^verbatim>\<open>f"{self.tenant_id}.async_{self.raw_database}_{self.schema}"\<close>\<close>

definition module_path :: "'b decl_utils \<Rightarrow> string" where
  "module_path u = tenant_id u @ ''.async_'' @ raw_database u @ ''_'' @ schema u"

text \<open>Where the import system looks for a dotted name below \<open>DECLARATIVES_PATH\<close>, which
  the factory appended to \<open>sys.path\<close>.\<close>

definition module_file :: "dconfig \<Rightarrow> string \<Rightarrow> string" where
  "module_file cfg name =
     DECLARATIVES_PATH cfg @ ''/''
       @ map (\<lambda>c. if c = CHR ''.'' then CHR ''/'' else c) name @ ''.py''"

subsection \<open>\_prepare\_declarative\_file\<close>

text \<open>
  The result is the import path, or \<open>False\<close> (here \<open>None\<close>), or an exception that is not an
  \<open>Exception\<close> and so passes both handlers. An \<open>ImportError\<close> is logged and the function
  goes on to its last line, which returns the path.
\<close>

definition generation_handler ::
  "string \<Rightarrow> exn \<Rightarrow> 'b dworld \<Rightarrow> (exn + string option) \<times> 'b dworld" where
  "generation_handler path x w =
     (if is_ImportError x then (Inr (Some path), w)
      else if is_Exception x then (Inr None, w)
      else (Inl x, w))"

text \<open>The first lines of \<open>_prepare_declarative_file\<close>: the tenant's directory and its
  \<open>__init__.py\<close> are created when they are not there.\<close>

definition ensure_tenant_package :: "dconfig \<Rightarrow> 'b decl_utils \<Rightarrow> 'b dworld \<Rightarrow> 'b dworld" where
  "ensure_tenant_package cfg u w =
     (let dir = tenant_directory cfg u;
          w1 = (if dir \<notin> dirs w
                then demit (MadeDirectory dir) (w\<lparr>dirs := insert dir (dirs w)\<rparr>) else w);
          tenant_init_file = dir @ ''/__init__.py''
      in if files w1 tenant_init_file = None
         then write_file tenant_init_file [] w1 else w1)"

definition prepare_declarative_file ::
  "dconfig \<Rightarrow> 'b denv \<Rightarrow> 'b decl_utils \<Rightarrow> bool \<Rightarrow> 'b dworld \<Rightarrow>
   (exn + string option) \<times> 'b dworld" where
  "prepare_declarative_file cfg en u refresh w =
     (let w2 = ensure_tenant_package cfg u w;
          file = declarative_file cfg u
      in if files w2 file \<noteq> None \<and> DEFER_GEN_REFRESH cfg \<and> \<not> refresh
         then (Inr (Some (module_path u)), w2)
         else
           (let w3 = demit (GenerationAttempted (raw_database u)
                              (if raw_db u then None else Some (tenant_id u)) (schema u))
                       (w2\<lparr>gens := Suc (gens w2)\<rparr>)
            in case generation en (gens w2) of
                 ReflectRaises x \<Rightarrow> generation_handler (module_path u) x w3
               | GenerateRaises x \<Rightarrow>
                   generation_handler (module_path u) x (write_file file [] w3)
               | Generated text \<Rightarrow> (Inr (Some (module_path u)), write_file file text w3)))"

subsection \<open>importlib\<close>

text \<open>
  \<open>import_module\<close>: a name already in \<open>sys.modules\<close> is returned as it is; otherwise the
  file is looked up (\<open>ModuleNotFoundError\<close>, whose text starts with \<open>No module named\<close>,
  when it is absent) and its source executed; a module whose execution raises is not kept
  in \<open>sys.modules\<close>.
\<close>

definition import_module ::
  "dconfig \<Rightarrow> 'b denv \<Rightarrow> string \<Rightarrow> 'b dworld \<Rightarrow> (exn + 'b py_module) \<times> 'b dworld" where
  "import_module cfg en name w =
     (let w0 = demit (ImportModule name) w in
      case sys_modules w0 name of
        Some mo \<Rightarrow> (Inr mo, w0)
      | None \<Rightarrow>
          (case files w0 (module_file cfg name) of
             None \<Rightarrow> (Inl (Exn ModuleNotFoundError (''No module named '' @ name)), w0)
           | Some text \<Rightarrow>
               (let w1 = w0\<lparr>execs := Suc (execs w0)\<rparr> in
                case loader en (execs w0) text of
                  Inl x \<Rightarrow> (Inl x, w1)
                | Inr attrs \<Rightarrow>
                    (let mo = \<lparr>mod_id = next_obj w1, mod_name = name, mod_source = text,
                               mod_attrs = attrs\<rparr>
                     in (Inr mo,
                         w1\<lparr>next_obj := Suc (next_obj w1),
                            sys_modules := (sys_modules w1)(name \<mapsto> mo)\<rparr>)))))"

text \<open>\<open>import_module\<close> applied to \<open>self.declarative_module\<close>: only a \<open>str\<close> is a name.\<close>

definition import_module_ref ::
  "dconfig \<Rightarrow> 'b denv \<Rightarrow> 'b modref \<Rightarrow> 'b dworld \<Rightarrow> (exn + 'b py_module) \<times> 'b dworld" where
  "import_module_ref cfg en r w =
     (case r of
        MPath name \<Rightarrow> import_module cfg en name w
      | MNone \<Rightarrow> (Inl (Exn AttributeError ''startswith''), w)
      | MLoaded mo \<Rightarrow> (Inl (Exn AttributeError ''startswith''), w))"

text \<open>\<open>reload\<close>: the same module object, executed again from the file as it is now.\<close>

definition reload ::
  "dconfig \<Rightarrow> 'b denv \<Rightarrow> 'b modref \<Rightarrow> 'b dworld \<Rightarrow> (exn + 'b py_module) \<times> 'b dworld" where
  "reload cfg en r w =
     (case r of
        MNone \<Rightarrow> (Inl (Exn TypeError ''reload() argument must be a module''), w)
      | MPath name \<Rightarrow> (Inl (Exn TypeError ''reload() argument must be a module''), w)
      | MLoaded mo \<Rightarrow>
          (let w0 = demit (ReloadModule (mod_name mo)) w in
           if sys_modules w0 (mod_name mo) = None
           then (Inl (Exn ImportError (''module not in sys.modules '' @ mod_name mo)), w0)
           else
             (case files w0 (module_file cfg (mod_name mo)) of
                None \<Rightarrow> (Inl (Exn ModuleNotFoundError (''spec not found '' @ mod_name mo)), w0)
              | Some text \<Rightarrow>
                  (let w1 = w0\<lparr>execs := Suc (execs w0)\<rparr> in
                   case loader en (execs w0) text of
                     Inl x \<Rightarrow> (Inl x, w1)
                   | Inr attrs \<Rightarrow>
                       (let mo' = mo\<lparr>mod_source := text, mod_attrs := attrs\<rparr>
                        in (Inr mo',
                            w1\<lparr>sys_modules := (sys_modules w1)(mod_name mo \<mapsto> mo')\<rparr>))))))"

subsection \<open>refresh\_module\<close>

text \<open>
  Modelled from the spec: \<open>base_class_generator.remove_base_class\<close> is in
  \<open>sql_db_utils.asyncio.declaratives\<close>, which is not among the sources; the spec says it
  removes the base registered for the \<open>(database, schema)\<close> pair.
\<close>

definition remove_base_class :: "string \<Rightarrow> string \<Rightarrow> 'b dworld \<Rightarrow> 'b dworld" where
  "remove_base_class db sch w =
     demit (RemovedBase db sch) (w\<lparr>bases := bases w - {(db, sch)}\<rparr>)"

text \<open>The value of \<open>_prepare_declarative_file(True)\<close> is not looked at.\<close>

definition refresh_module ::
  "dconfig \<Rightarrow> 'b denv \<Rightarrow> 'b decl_utils \<Rightarrow> bool \<Rightarrow> 'b dworld \<Rightarrow>
   exn option \<times> 'b decl_utils \<times> 'b dworld" where
  "refresh_module cfg en u non_refresh w =
     (let w1 = remove_base_class (raw_database u) (schema u) w in
      case prepare_declarative_file cfg en u True w1 of
        (Inl x, w2) \<Rightarrow> (Some x, u, w2)
      | (Inr p, w2) \<Rightarrow>
          (case (if non_refresh
                 then import_module_ref cfg en (declarative_module u) w2
                 else reload cfg en (declarative_module u) w2) of
             (Inl x, w3) \<Rightarrow> (Some x, u, w3)
           | (Inr mo, w3) \<Rightarrow> (None, u\<lparr>declarative_module := MLoaded mo\<rparr>, w3)))"

subsection \<open>\_get\_declarative\_module\<close>

text \<open>
  The branch for \<open>No module named\<close>: the other tasks are cancelled and \<open>sys.exit(1)\<close>
  raises \<open>SystemExit\<close>, which no handler of the function catches. Should the cancellation
  itself raise, an \<open>ImportError\<close> leads to \<open>sys.exit(1)\<close> too and any other \<open>Exception\<close>
  to \<open>return None\<close>.
\<close>

definition emergency_exit ::
  "'b denv \<Rightarrow> 'b decl_utils \<Rightarrow> 'b dworld \<Rightarrow>
   (exn + 'b py_module option) \<times> 'b decl_utils \<times> 'b dworld" where
  "emergency_exit en u w =
     (case cancel_tasks en of
        None \<Rightarrow> (Inl (Exn SystemExit ''1''), u, demit SysExit (demit CancelledTasks w))
      | Some x \<Rightarrow>
          if is_ImportError x then (Inl (Exn SystemExit ''1''), u, demit SysExit w)
          else if is_Exception x then (Inr None, u, w)
          else (Inl x, u, w))"

text \<open>\<open>weakref.proxy\<close> of \<open>self.declarative_module\<close>: a \<open>str\<close> or \<open>None\<close> cannot be
  referenced weakly.\<close>

definition proxy :: "'b modref \<Rightarrow> exn + 'b py_module" where
  "proxy r =
     (case r of
        MLoaded mo \<Rightarrow> Inr mo
      | MPath p \<Rightarrow> Inl (Exn TypeError ''cannot create weak reference'')
      | MNone \<Rightarrow> Inl (Exn TypeError ''cannot create weak reference''))"

text \<open>
  The result is the proxy of the module, or \<open>None\<close>, or an exception that leaves the
  function; the object's \<open>declarative_module\<close> attribute changes on the way.
\<close>

definition get_declarative_module ::
  "dconfig \<Rightarrow> 'b denv \<Rightarrow> 'b decl_utils \<Rightarrow> 'b dworld \<Rightarrow>
   (exn + 'b py_module option) \<times> 'b decl_utils \<times> 'b dworld" where
  "get_declarative_module cfg en u w =
     (case prepare_declarative_file cfg en u False w of
        (Inl x, w1) \<Rightarrow> (Inl x, u, w1)
      | (Inr None, w1) \<Rightarrow> (Inr None, u, w1)
      | (Inr (Some declarative_module_path), w1) \<Rightarrow>
          if declarative_module_path = [] then (Inr None, u, w1)
          else
            (let u1 = u\<lparr>declarative_module := MPath declarative_module_path\<rparr> in
             case import_module cfg en declarative_module_path w1 of
               (Inr mo, w2) \<Rightarrow> (Inr (Some mo), u1\<lparr>declarative_module := MLoaded mo\<rparr>, w2)
             | (Inl e, w2) \<Rightarrow>
                 if \<not> is_Exception e then (Inl e, u1, w2)
                 else if str_contains ''No module named'' (exn_str e)
                 then emergency_exit en u1 w2
                 else if str_contains ''is already defined'' (exn_str e)
                 then
                   (case refresh_module cfg en u1 True w2 of
                      (Some x, u2, w3) \<Rightarrow>
                        if is_Exception x then (Inr None, u2, w3) else (Inl x, u2, w3)
                    | (None, u2, w3) \<Rightarrow>
                        (case proxy (declarative_module u2) of
                           Inl x \<Rightarrow> (Inr None, u2, w3)
                         | Inr mo \<Rightarrow> (Inr (Some mo), u2, w3)))
                 else (Inr None, u1, w2)))"

subsection \<open>get\_declarative\_class\<close>

definition getattr_ref :: "'b denv \<Rightarrow> 'b modref \<Rightarrow> string \<Rightarrow> exn + 'b" where
  "getattr_ref en r name =
     (case r of
        MLoaded mo \<Rightarrow>
          (case mod_attrs mo name of Some v \<Rightarrow> Inr v | None \<Rightarrow> Inl (Exn AttributeError name))
      | MPath p \<Rightarrow>
          (case str_attr en name of Some v \<Rightarrow> Inr v | None \<Rightarrow> Inl (Exn AttributeError name))
      | MNone \<Rightarrow> Inl (Exn AttributeError name))"

text \<open>\<^verbatim>\<open>if self.declarative_module:\<close> is false for \<open>None\<close> and for the empty string.\<close>

definition truthy :: "'b modref \<Rightarrow> bool" where
  "truthy r = (case r of MNone \<Rightarrow> False | MPath p \<Rightarrow> p \<noteq> [] | MLoaded mo \<Rightarrow> True)"

text \<open>The four nested \<^verbatim>\<open>try\<close> blocks; each handler catches \<open>AttributeError\<close> only, which
  is all \<open>getattr_ref\<close> raises. The value is the binding, or \<open>None\<close>.\<close>

definition get_declarative_class :: "'b denv \<Rightarrow> 'b decl_utils \<Rightarrow> string \<Rightarrow> 'b option" where
  "get_declarative_class en u table_name =
     (if truthy (declarative_module u) then
        (case getattr_ref en (declarative_module u) (to_pascal en table_name) of
           Inr v \<Rightarrow> Some v
         | Inl x1 \<Rightarrow>
            (case getattr_ref en (declarative_module u) (''t_'' @ table_name) of
               Inr v \<Rightarrow> Some v
             | Inl x2 \<Rightarrow>
                (case getattr_ref en (declarative_module u) table_name of
                   Inr v \<Rightarrow> Some v
                 | Inl x3 \<Rightarrow>
                    (case getattr_ref en (declarative_module u)
                            (filter (\<lambda>c. c \<noteq> CHR ''_'') table_name) of
                       Inr v \<Rightarrow> Some v
                     | Inl x4 \<Rightarrow> None))))
      else None)"

subsection \<open>The factory\<close>

definition pre_check ::
  "dconfig \<Rightarrow> 'b denv \<Rightarrow> 'b decl_utils \<Rightarrow> 'b dworld \<Rightarrow>
   exn option \<times> 'b decl_utils \<times> 'b dworld" where
  "pre_check cfg en u w =
     (case declarative_module u of
        MLoaded mo \<Rightarrow> (None, u, w)
      | other \<Rightarrow>
          (case get_declarative_module cfg en u w of
             (Inl x, u1, w1) \<Rightarrow> (Some x, u1, w1)
           | (Inr v, u1, w1) \<Rightarrow> (None, u1, w1)))"

text \<open>\<open>DeclarativeUtils.__new__\<close>: a new object, initialised, with its module fetched.\<close>

definition new_declarative_utils ::
  "dconfig \<Rightarrow> 'b denv \<Rightarrow> string \<Rightarrow> string \<Rightarrow> string \<Rightarrow> bool \<Rightarrow> 'b dworld \<Rightarrow>
   (exn + 'b decl_utils) \<times> 'b dworld" where
  "new_declarative_utils cfg en db tenant sch raw w =
     (let obj = \<lparr>util_id = next_obj w, raw_database = db, tenant_id = tenant, schema = sch,
                 raw_db = raw, declarative_module = MNone\<rparr>
      in case get_declarative_module cfg en obj (w\<lparr>next_obj := Suc (next_obj w)\<rparr>) of
           (Inl x, u1, w1) \<Rightarrow> (Inl x, w1)
         | (Inr v, u1, w1) \<Rightarrow> (Inr u1, w1))"

text \<open>\<^verbatim>\<open>f"{raw_database}_{tenant_id}_{schema}"\<close>\<close>

definition cache_key :: "string \<Rightarrow> string \<Rightarrow> string \<Rightarrow> string" where
  "cache_key db tenant sch = db @ ''_'' @ tenant @ ''_'' @ sch"

text \<open>
  The three entry points of the factory share this body. The table holds the object
  itself, so what \<open>_pre_check\<close> changes in it is changed in the table; an object is true.
\<close>

definition get_declarative_utils ::
  "dconfig \<Rightarrow> 'b denv \<Rightarrow> string \<Rightarrow> string \<Rightarrow> string \<Rightarrow> bool \<Rightarrow> 'b dworld \<Rightarrow>
   (exn + 'b decl_utils) \<times> 'b dworld" where
  "get_declarative_utils cfg en db tenant sch raw w =
     (case declarative_utils w (cache_key db tenant sch) of
        Some declarative_util \<Rightarrow>
          (case pre_check cfg en declarative_util w of
             (Some x, u1, w1) \<Rightarrow>
               (Inl x, w1\<lparr>declarative_utils :=
                            (declarative_utils w1)(cache_key db tenant sch \<mapsto> u1)\<rparr>)
           | (None, u1, w1) \<Rightarrow>
               (Inr u1, w1\<lparr>declarative_utils :=
                            (declarative_utils w1)(cache_key db tenant sch \<mapsto> u1)\<rparr>))
      | None \<Rightarrow>
          (case new_declarative_utils cfg en db tenant sch raw w of
             (Inl x, w1) \<Rightarrow> (Inl x, w1)
           | (Inr u1, w1) \<Rightarrow>
               (Inr u1, w1\<lparr>declarative_utils :=
                            (declarative_utils w1)(cache_key db tenant sch \<mapsto> u1)\<rparr>)))"

subsection \<open>Name resolution, as the specification words it\<close>

text \<open>
  The four spellings in the order of the specification (Pascal-cased, \<open>t_\<close>-prefixed,
  exact, underscores stripped), and the first of a list of names that the module binds.
\<close>

definition candidate_names :: "'b denv \<Rightarrow> string \<Rightarrow> string list" where
  "candidate_names en table_name =
     [to_pascal en table_name, ''t_'' @ table_name, table_name,
      filter (\<lambda>c. c \<noteq> CHR ''_'') table_name]"

fun first_binding :: "(string \<rightharpoonup> 'b) \<Rightarrow> string list \<Rightarrow> 'b option" where
  "first_binding attrs [] = None"
| "first_binding attrs (n # ns) =
     (case attrs n of Some v \<Rightarrow> Some v | None \<Rightarrow> first_binding attrs ns)"

subsection \<open>Reading the trace and the collaborators\<close>

text \<open>A loader that never reports a name as already defined.\<close>

definition never_conflicts :: "'b denv \<Rightarrow> bool" where
  "never_conflicts en =
     (\<forall>n text. case loader en n text of
                 Inl x \<Rightarrow> \<not> str_contains ''is already defined'' (exn_str x)
               | Inr attrs \<Rightarrow> True)"

text \<open>An exception that \<open>_get_declarative_module\<close> takes for a naming conflict.\<close>

definition is_conflict :: "exn \<Rightarrow> bool" where
  "is_conflict e =
     (is_Exception e \<and> \<not> str_contains ''No module named'' (exn_str e)
      \<and> str_contains ''is already defined'' (exn_str e))"

fun reload_of :: "devent \<Rightarrow> string list" where
  "reload_of (ReloadModule n) = [n]"
| "reload_of ev = []"

fun import_of :: "devent \<Rightarrow> string list" where
  "import_of (ImportModule n) = [n]"
| "import_of ev = []"

definition reloaded :: "'b dworld \<Rightarrow> string list" where
  "reloaded w = concat (map reload_of (dtrace w))"

definition imported :: "'b dworld \<Rightarrow> string list" where
  "imported w = concat (map import_of (dtrace w))"

definition written :: "string \<Rightarrow> 'b dworld \<Rightarrow> nat" where
  "written p w = count_list (dtrace w) (WroteFile p)"

text \<open>How often \<open>refresh_module\<close> ran: each run starts by removing the base.\<close>

fun removal_of :: "devent \<Rightarrow> (string \<times> string) list" where
  "removal_of (RemovedBase db sch) = [(db, sch)]"
| "removal_of ev = []"

definition refreshes :: "'b dworld \<Rightarrow> nat" where
  "refreshes w = length (concat (map removal_of (dtrace w)))"

text \<open>The exception that left a call, if one did.\<close>

definition raised :: "exn + 'a \<Rightarrow> exn option" where
  "raised r = (case r of Inl x \<Rightarrow> Some x | Inr v \<Rightarrow> None)"

section \<open>Concrete inputs\<close>

definition login_failure_env :: "(unit, string) env" where
  "login_failure_env =
     \<lparr>probe = (\<lambda>_. Raises (Exn OperationalError
                 ''FATAL: server login has been failing, try again later'')),
      dependencies_raise = (\<lambda>_. None),
      auto_fn = (\<lambda>_ _. Inr (Statements [])),
      manual_fn = (\<lambda>_ _. ([], None)),
      statement_raises = (\<lambda>_. None)\<rparr>"

definition world0 :: "('h, 's) world" where
  "world0 = \<lparr>next_id = 0, attempts = 0, durable = [], trace = []\<rparr>"

definition engine0 :: engine where
  "engine0 = \<lparr>engine_id = 0, engine_url = ''postgresql://host/acme__billing'',
              engine_db = ''acme__billing'', engine_pool = QueuePool,
              isolation_level = AUTOCOMMIT\<rparr>"

definition cfg_cached :: config where
  "cfg_cached = \<lparr>PG_MAX_RETRY = 3, PG_ENABLE_POOLING = False, PG_ANTI_PERSISTENT = False,
                 MODULE_NAME = ''svc''\<rparr>"

definition cfg_anti :: config where
  "cfg_anti = \<lparr>PG_MAX_RETRY = 3, PG_ENABLE_POOLING = False, PG_ANTI_PERSISTENT = True,
               MODULE_NAME = ''svc''\<rparr>"

text \<open>Every action returns its own name as its one statement; nothing raises.\<close>

definition env_ok :: "(string, string) env" where
  "env_ok =
     \<lparr>probe = (\<lambda>_. Connected),
      dependencies_raise = (\<lambda>_. None),
      auto_fn = (\<lambda>h _. Inr (Statement h)),
      manual_fn = (\<lambda>_ _. ([], None)),
      statement_raises = (\<lambda>_. None)\<rparr>"

text \<open>The same, but the statement \<open>BAD\<close> raises.\<close>

definition env_bad :: "(string, string) env" where
  "env_bad =
     \<lparr>probe = (\<lambda>_. Connected),
      dependencies_raise = (\<lambda>_. None),
      auto_fn = (\<lambda>h _. Inr (Statement h)),
      manual_fn = (\<lambda>_ _. ([], None)),
      statement_raises =
        (\<lambda>s. if s = ''BAD'' then Some (Exn OtherError ''syntax error'') else None)\<rparr>"

definition manager0 :: "string manager" where
  "manager0 =
     \<lparr>db_engines = Map.empty, database_uri = ''pg://h'',
      postcreate_auto = [''billing'' \<mapsto> [''A'', ''B'']],
      postcreate_manual = Map.empty\<rparr>"

text \<open>A manager with two \<open>auto\<close> and two \<open>manual\<close> actions registered for \<open>billing\<close>.\<close>

definition manager_hooks :: "string manager" where
  "manager_hooks =
     \<lparr>db_engines = Map.empty, database_uri = ''pg://h'',
      postcreate_auto = [''billing'' \<mapsto> [''A'', ''B'']],
      postcreate_manual = [''billing'' \<mapsto> [''M1'', ''M2'']]\<rparr>"

text \<open>As \<open>env_ok\<close>, and every \<open>manual\<close> action executes its own name as a statement.\<close>

definition env_manual :: "(string, string) env" where
  "env_manual =
     \<lparr>probe = (\<lambda>_. Connected),
      dependencies_raise = (\<lambda>_. None),
      auto_fn = (\<lambda>h _. Inr (Statement h)),
      manual_fn = (\<lambda>h _. ([h], None)),
      statement_raises = (\<lambda>_. None)\<rparr>"

definition manager_bad :: "string manager" where
  "manager_bad =
     \<lparr>db_engines = Map.empty, database_uri = ''pg://h'',
      postcreate_auto = [''billing'' \<mapsto> [''A'', ''BAD'', ''C'']],
      postcreate_manual = Map.empty\<rparr>"

definition engine_tx :: engine where
  "engine_tx = \<lparr>engine_id = 7, engine_url = ''pg://h/acme__billing'',
               engine_db = ''acme__billing'', engine_pool = QueuePool,
               isolation_level = TRANSACTIONAL\<rparr>"

text \<open>A process that has loaded nothing, on an empty file system.\<close>

definition dworld0 :: "nat dworld" where
  "dworld0 = \<lparr>dirs = {}, files = Map.empty, sys_modules = Map.empty, bases = {},
              declarative_utils = Map.empty, next_obj = 0, gens = 0, execs = 0,
              dtrace = []\<rparr>"

definition dcfg :: dconfig where
  "dcfg = \<lparr>DECLARATIVES_PATH = ''/d'', DEFER_GEN_REFRESH = True\<rparr>"

text \<open>The same directory, with regeneration at every lookup.\<close>

definition dcfg_eager :: dconfig where
  "dcfg_eager = \<lparr>DECLARATIVES_PATH = ''/d'', DEFER_GEN_REFRESH = False\<rparr>"

text \<open>A generator that writes \<open>v0\<close>, \<open>v1\<close>, ... and modules that load and bind
  \<open>t_user_profile\<close> and \<open>userprofile\<close>; \<open>to_pascal\<close> is given on the one name used.\<close>

definition denv_ok :: "nat denv" where
  "denv_ok =
     \<lparr>generation = (\<lambda>n. Generated (if n = 0 then ''v0'' else ''v1'')),
      loader = (\<lambda>_ _. Inr [''t_user_profile'' \<mapsto> 1, ''userprofile'' \<mapsto> 2]),
      cancel_tasks = None,
      to_pascal = (\<lambda>s. if s = ''user_profile'' then ''UserProfile'' else s),
      str_attr = Map.empty\<rparr>"

definition utils_loaded :: "nat decl_utils" where
  "utils_loaded =
     \<lparr>util_id = 0, raw_database = ''billing'', tenant_id = ''acme'', schema = ''public'',
      raw_db = False,
      declarative_module =
        MLoaded \<lparr>mod_id = 1, mod_name = ''acme.async_billing_public'', mod_source = ''v0'',
                 mod_attrs = [''t_user_profile'' \<mapsto> 1, ''userprofile'' \<mapsto> 2]\<rparr>\<rparr>"

text \<open>Two lookups, one after the other, for two different triples.\<close>

definition first_lookup :: "(exn + nat decl_utils) \<times> nat dworld" where
  "first_lookup = get_declarative_utils dcfg denv_ok ''a'' ''b_c'' ''s'' False dworld0"

definition second_lookup :: "(exn + nat decl_utils) \<times> nat dworld" where
  "second_lookup = get_declarative_utils dcfg denv_ok ''a_b'' ''c'' ''s'' False (snd first_lookup)"

definition identity_of :: "exn + 'b decl_utils \<Rightarrow> (nat \<times> string \<times> string \<times> string) option" where
  "identity_of r =
     (case r of Inl x \<Rightarrow> None
              | Inr u \<Rightarrow> Some (util_id u, raw_database u, tenant_id u, schema u))"

text \<open>The code generator is not installed: its import raises.\<close>

definition denv_nocodegen :: "nat denv" where
  "denv_nocodegen =
     \<lparr>generation = (\<lambda>n. ReflectRaises (Exn ImportError ''cannot import codegen'')),
      loader = (\<lambda>_ _. Inr Map.empty),
      cancel_tasks = None,
      to_pascal = (\<lambda>s. s),
      str_attr = Map.empty\<rparr>"

text \<open>The reflection fails for another reason.\<close>

definition denv_noreflect :: "nat denv" where
  "denv_noreflect =
     \<lparr>generation = (\<lambda>n. ReflectRaises (Exn OperationalError ''connection refused'')),
      loader = (\<lambda>_ _. Inr Map.empty),
      cancel_tasks = None,
      to_pascal = (\<lambda>s. s),
      str_attr = Map.empty\<rparr>"

text \<open>The first execution of a module reports a conflict, the later ones succeed.\<close>

definition denv_conflict :: "nat denv" where
  "denv_conflict =
     \<lparr>generation = (\<lambda>n. Generated (if n = 0 then ''v0'' else ''v1'')),
      loader = (\<lambda>n text. if n = 0 then Inl (Exn OtherError ''Table x is already defined'')
                        else Inr [''t_user_profile'' \<mapsto> 1]),
      cancel_tasks = None,
      to_pascal = (\<lambda>s. s),
      str_attr = Map.empty\<rparr>"



section \<open>Properties\<close>

lemma store_append_all_lookup:
  "store_append_all st dbs func db =
     (if db \<in> set dbs
      then Some (dict_get_list st db @ replicate (count_list dbs db) func)
      else st db)"
proof (induction dbs arbitrary: st)
  case Nil
  show ?case by simp
next
  case (Cons d dbs)
  show ?case
    by (simp add: Cons.IH store_append_def dict_get_list_def replicate_app_Cons_same
             split: option.splits)
qed

lemma decorator_value: "fst (decorator rdb s func m) = PyNone"
  by (simp add: decorator_def split: raw_db_arg.splits)

lemma decorator_store:
  "get_store (snd (decorator rdb s func m)) s db =
     (if db \<in> set (names_of rdb)
      then Some (dict_get_list (get_store m s) db
                   @ replicate (count_list (names_of rdb) db) func)
      else get_store m s db)"
  by (cases s)
     (simp_all add: decorator_def names_of_def get_store_def set_store_def
        store_append_all_lookup store_append_def dict_get_list_def
        split: raw_db_arg.splits option.splits)

lemma decorator_other:
  "s' \<noteq> s \<Longrightarrow> get_store (snd (decorator rdb s func m)) s' = get_store m s'"
  "db_engines (snd (decorator rdb s func m)) = db_engines m"
  by (cases s; cases s';
      simp add: decorator_def get_store_def set_store_def split: raw_db_arg.splits)+

text \<open>
  Claim C10. For a name or a list of names and any action, the decorator that
  \<open>register_postcreate\<close> (and \<open>register_postcreate_manual\<close>) returns puts the action at
  the end of the list registered under each given name, once per occurrence of the name,
  leaves every other name and the other table as they were, and returns \<open>None\<close>; a
  decorated definition therefore binds the function's name to \<open>None\<close> in the caller's
  namespace.
\<close>

theorem register_postcreate_appends_and_returns_None:
  "fst (register_postcreate rdb func m) = PyNone
   \<and> fst (register_postcreate_manual rdb func m) = PyNone
   \<and> postcreate_auto (snd (register_postcreate rdb func m)) db =
       (if db \<in> set (names_of rdb)
        then Some (dict_get_list (postcreate_auto m) db
                     @ replicate (count_list (names_of rdb) db) func)
        else postcreate_auto m db)
   \<and> postcreate_manual (snd (register_postcreate rdb func m)) = postcreate_manual m
   \<and> postcreate_manual (snd (register_postcreate_manual rdb func m)) db =
       (if db \<in> set (names_of rdb)
        then Some (dict_get_list (postcreate_manual m) db
                     @ replicate (count_list (names_of rdb) db) func)
        else postcreate_manual m db)
   \<and> postcreate_auto (snd (register_postcreate_manual rdb func m)) = postcreate_auto m
   \<and> fst (decorated_def (register_postcreate rdb) name func (ns, m)) name = Some PyNone
   \<and> fst (decorated_def (register_postcreate_manual rdb) name func (ns, m)) name
       = Some PyNone"
proof -
  have a: "get_store m Store_postcreate_auto = postcreate_auto m" for m :: "'a manager"
    by (simp add: get_store_def)
  have b: "get_store m Store_postcreate_manual = postcreate_manual m" for m :: "'a manager"
    by (simp add: get_store_def)
  have d: "fst (decorated_def (decorator rdb s) name func (ns, m)) name = Some PyNone" for s
    using decorator_value [of rdb s func m]
    by (cases "decorator rdb s func m") (simp add: decorated_def_def)
  show ?thesis
    unfolding register_postcreate_def register_postcreate_manual_def postcreate_decorator_def
    using decorator_store [of rdb Store_postcreate_auto func m db]
          decorator_store [of rdb Store_postcreate_manual func m db]
          decorator_other(1) [of Store_postcreate_manual Store_postcreate_auto rdb func m]
          decorator_other(1) [of Store_postcreate_auto Store_postcreate_manual rdb func m]
    by (simp only: a b d decorator_value) simp
qed

lemma upt_0_3: "[0..<3] = [0, 1, 2::nat]"
  by code_simp

lemma str_contains_login: "str_contains ''server login has been failing''
   ''FATAL: server login has been failing, try again later''"
  by simp

text \<open>
  Claim C2. With a retry budget of three and a server that answers every attempt with an
  \<open>OperationalError\<close> whose text contains \<open>server login has been failing\<close>,
  \<open>_ensure_engine_connection\<close> logs the error and goes on: it makes all three attempts
  and then returns normally.
\<close>

theorem ensure_engine_connection_login_failure_retries:
  "ensure_engine_connection
     \<lparr>PG_MAX_RETRY = 3, PG_ENABLE_POOLING = True, PG_ANTI_PERSISTENT = False,
      MODULE_NAME = ''svc''\<rparr>
     login_failure_env engine0 world0
   = (None,
      \<lparr>next_id = 0, attempts = 3, durable = [],
       trace = [ConnectAttempt engine0 0, LogConnectionFailed,
                ConnectAttempt engine0 1, LogConnectionFailed,
                ConnectAttempt engine0 2, LogConnectionFailed]\<rparr>)"
  by (simp add: ensure_engine_connection_def login_failure_env_def world0_def emit_def
        upt_0_3 str_contains_login
      del: str_contains.simps)



lemma proj_simps [simp]:
  "proj f (emit ev w) = proj f w @ f ev"
  "proj f (w\<lparr>attempts := a\<rparr>) = proj f w"
  "proj f (w\<lparr>durable := d\<rparr>) = proj f w"
  "proj f (w\<lparr>next_id := n\<rparr>) = proj f w"
  by (simp_all add: proj_def emit_def)

lemma emit_fields [simp]:
  "next_id (emit ev w) = next_id w"
  "durable (emit ev w) = durable w"
  "attempts (emit ev w) = attempts w"
  by (simp_all add: emit_def)

lemma ensure_loop_frame:
  "next_id (snd (ensure_loop en e is w)) = next_id w
   \<and> durable (snd (ensure_loop en e is w)) = durable w
   \<and> proj (session_of q) (snd (ensure_loop en e is w)) = proj (session_of q) w
   \<and> proj (auto_call_of q) (snd (ensure_loop en e is w)) = proj (auto_call_of q) w"
  by (induction "is" arbitrary: w) (simp_all add: Let_def split: attempt.splits)

lemma session_execute_frame:
  "next_id (snd (snd (session_execute en e st s))) = next_id (snd s)
   \<and> proj (session_of q) (snd (snd (session_execute en e st s))) = proj (session_of q) (snd s)
   \<and> proj (auto_call_of q) (snd (snd (session_execute en e st s))) = proj (auto_call_of q) (snd s)
   \<and> proj manual_call_of (snd (snd (session_execute en e st s))) = proj manual_call_of (snd s)"
  by (simp add: session_execute_def Let_def split: option.splits)

lemma execute_all_frame:
  "next_id (snd (snd (execute_all en e sts s))) = next_id (snd s)
   \<and> proj (session_of q) (snd (snd (execute_all en e sts s))) = proj (session_of q) (snd s)
   \<and> proj (auto_call_of q) (snd (snd (execute_all en e sts s))) = proj (auto_call_of q) (snd s)
   \<and> proj manual_call_of (snd (snd (execute_all en e sts s))) = proj manual_call_of (snd s)"
proof (induction sts arbitrary: s)
  case Nil
  show ?case by simp
next
  case (Cons st sts)
  obtain r s1 where eq: "session_execute en e st s = (r, s1)"
    by (metis surj_pair)
  show ?case
    using session_execute_frame [of en e st s q] Cons.IH [of s1]
    by (cases r) (simp_all add: eq)
qed

lemma run_auto_frame:
  "next_id (snd (snd (run_auto en e t fs s))) = next_id (snd s)
   \<and> proj (session_of q) (snd (snd (run_auto en e t fs s))) = proj (session_of q) (snd s)
   \<and> proj manual_call_of (snd (snd (run_auto en e t fs s))) = proj manual_call_of (snd s)"
proof (induction fs arbitrary: s)
  case Nil
  show ?case by simp
next
  case (Cons f fs)
  let ?s0 = "(fst s, emit (AutoCalled e f t) (snd s))"
  show ?case
  proof (cases "auto_fn en f t")
    case (Inl x)
    then show ?thesis by (simp add: Let_def)
  next
    case (Inr r)
    show ?thesis
    proof (cases r)
      case (Statement st)
      obtain r1 s1 where eq: "session_execute en e st ?s0 = (r1, s1)"
        by (metis surj_pair)
      show ?thesis
        using session_execute_frame [of en e st ?s0 q] Cons.IH [of s1]
        by (cases r1) (simp_all add: Let_def Inr Statement eq)
    next
      case (Statements sts)
      obtain r1 s1 where eq: "execute_all en e sts ?s0 = (r1, s1)"
        by (metis surj_pair)
      show ?thesis
        using execute_all_frame [of en e sts ?s0 q] Cons.IH [of s1]
        by (cases r1) (simp_all add: Let_def Inr Statements eq)
    qed
  qed
qed

lemma run_manual_frame:
  "next_id (snd (snd (run_manual en e t fs s))) = next_id (snd s)
   \<and> proj (session_of q) (snd (snd (run_manual en e t fs s))) = proj (session_of q) (snd s)
   \<and> proj (auto_call_of q) (snd (snd (run_manual en e t fs s))) = proj (auto_call_of q) (snd s)"
proof (induction fs arbitrary: s)
  case Nil
  show ?case by simp
next
  case (Cons f fs)
  let ?s0 = "(fst s, emit (ManualCalled e f t) (snd s))"
  obtain r1 s1 where eq: "execute_all en e (fst (manual_fn en f t)) ?s0 = (r1, s1)"
    by (metis surj_pair)
  show ?case
    using execute_all_frame [of en e "fst (manual_fn en f t)" ?s0 q] Cons.IH [of s1]
    by (cases r1; cases "snd (manual_fn en f t)") (simp_all add: Let_def eq)
qed

lemma auto_block_frame:
  "next_id (snd (snd (auto_block en e t fs s))) = next_id (snd s)
   \<and> proj (session_of q) (snd (snd (auto_block en e t fs s))) = proj (session_of q) (snd s)
   \<and> proj manual_call_of (snd (snd (auto_block en e t fs s))) = proj manual_call_of (snd s)"
proof -
  obtain r1 s1 where eq: "run_auto en e t fs s = (r1, s1)"
    by (metis surj_pair)
  show ?thesis
    using run_auto_frame [of en e t fs s q]
    by (cases r1) (simp_all add: auto_block_def eq session_rollback_def session_commit_def)
qed

lemma run_postcreate_frame:
  "next_id (snd (run_postcreate en m e raw t w)) = next_id w
   \<and> proj (session_of q) (snd (run_postcreate en m e raw t w))
       = proj (session_of q) w @ (if engine_db e = q then [e] else [])"
proof -
  let ?s = "([], emit (SessionCreated e) w)"
  let ?fs = "dict_get_list (postcreate_auto m) raw"
  let ?gs = "dict_get_list (postcreate_manual m) raw"
  obtain r1 s1 where eq1: "auto_block en e t ?fs ?s = (r1, s1)"
    by (metis surj_pair)
  obtain r2 s2 where eq2: "run_manual en e t ?gs s1 = (r2, s2)"
    by (metis surj_pair)
  show ?thesis
    using auto_block_frame [of en e t ?fs ?s q] run_manual_frame [of en e t ?gs s1 q]
    by (cases r1; cases r2)
       (simp_all add: run_postcreate_def Let_def eq1 eq2 session_commit_def)
qed

subsection \<open>Benign collaborators\<close>

lemma benign_ensure_loop: "benign en \<Longrightarrow> fst (ensure_loop en e is w) = None"
proof (induction "is" arbitrary: w)
  case Nil
  show ?case by simp
next
  case (Cons i "is")
  have b: "case probe en (attempts w) of Connected \<Rightarrow> True
        | Raises x \<Rightarrow> exn_cls x = OperationalError"
    using Cons.prems by (simp add: benign_def)
  show ?case
  proof (cases "probe en (attempts w)")
    case Connected
    then show ?thesis by (simp add: Let_def)
  next
    case (Raises x)
    then have "exn_cls x = OperationalError"
      using b by simp
    then show ?thesis
      using Cons.IH [OF Cons.prems] by (simp add: Let_def Raises)
  qed
qed

lemma session_commit_frame [simp]:
  "proj f (snd (session_commit e s)) = proj f (snd s)"
  "next_id (snd (session_commit e s)) = next_id (snd s)"
  by (simp_all add: session_commit_def)

lemma benign_session_execute:
  "benign en \<Longrightarrow> fst (session_execute en e st s) = None"
  by (simp add: benign_def session_execute_def Let_def)

lemma benign_execute_all: "benign en \<Longrightarrow> fst (execute_all en e sts s) = None"
proof (induction sts arbitrary: s)
  case Nil
  show ?case by simp
next
  case (Cons st sts)
  obtain r s1 where eq: "session_execute en e st s = (r, s1)"
    by (metis surj_pair)
  have "r = None"
    using benign_session_execute [OF Cons.prems, of e st s] by (simp add: eq)
  then show ?case
    using Cons.IH [OF Cons.prems, of s1] by (simp add: eq)
qed

lemma benign_run_auto:
  "benign en \<Longrightarrow>
   fst (run_auto en e t fs s) = None
   \<and> proj (auto_call_of q) (snd (snd (run_auto en e t fs s)))
       = proj (auto_call_of q) (snd s) @ (if engine_db e = q then map (\<lambda>h. (h, t)) fs else [])"
proof (induction fs arbitrary: s)
  case Nil
  show ?case by simp
next
  case (Cons f fs)
  let ?s0 = "(fst s, emit (AutoCalled e f t) (snd s))"
  have "case auto_fn en f t of Inl x \<Rightarrow> False | Inr r \<Rightarrow> True"
    using Cons.prems by (simp add: benign_def)
  then obtain r where r: "auto_fn en f t = Inr r"
    by (cases "auto_fn en f t") simp_all
  show ?case
  proof (cases r)
    case (Statement st)
    obtain r1 s1 where eq: "session_execute en e st ?s0 = (r1, s1)"
      by (metis surj_pair)
    have "r1 = None"
      using benign_session_execute [OF Cons.prems, of e st ?s0] by (simp add: eq)
    then show ?thesis
      using session_execute_frame [of en e st ?s0 q] Cons.IH [OF Cons.prems, of s1]
      by (simp add: Let_def r Statement eq)
  next
    case (Statements sts)
    obtain r1 s1 where eq: "execute_all en e sts ?s0 = (r1, s1)"
      by (metis surj_pair)
    have "r1 = None"
      using benign_execute_all [OF Cons.prems, of e sts ?s0] by (simp add: eq)
    then show ?thesis
      using execute_all_frame [of en e sts ?s0 q] Cons.IH [OF Cons.prems, of s1]
      by (simp add: Let_def r Statements eq)
  qed
qed

lemma benign_run_manual: "benign en \<Longrightarrow> fst (run_manual en e t fs s) = None"
proof (induction fs arbitrary: s)
  case Nil
  show ?case by simp
next
  case (Cons f fs)
  let ?s0 = "(fst s, emit (ManualCalled e f t) (snd s))"
  obtain r1 s1 where eq: "execute_all en e (fst (manual_fn en f t)) ?s0 = (r1, s1)"
    by (metis surj_pair)
  have "r1 = None"
    using benign_execute_all [OF Cons.prems, of e "fst (manual_fn en f t)" ?s0]
    by (simp add: eq)
  moreover have "snd (manual_fn en f t) = None"
    using Cons.prems by (simp add: benign_def)
  ultimately show ?case
    using Cons.IH [OF Cons.prems, of s1] by (simp add: Let_def eq)
qed

lemma benign_run_postcreate:
  assumes "benign en"
  shows "fst (run_postcreate en m e raw t w) = None
   \<and> proj (auto_call_of q) (snd (run_postcreate en m e raw t w))
       = proj (auto_call_of q) w
         @ (if engine_db e = q
            then map (\<lambda>h. (h, t)) (dict_get_list (postcreate_auto m) raw) else [])"
proof -
  let ?s = "([], emit (SessionCreated e) w)"
  let ?fs = "dict_get_list (postcreate_auto m) raw"
  let ?gs = "dict_get_list (postcreate_manual m) raw"
  obtain r0 s0 where eq0: "run_auto en e t ?fs ?s = (r0, s0)"
    by (metis surj_pair)
  have r0: "r0 = None"
    using benign_run_auto [OF assms, of e t ?fs ?s q] by (simp add: eq0)
  have eq1: "auto_block en e t ?fs ?s = (None, session_commit e s0)"
    by (simp add: auto_block_def eq0 r0)
  obtain r2 s2 where eq2: "run_manual en e t ?gs (session_commit e s0) = (r2, s2)"
    by (metis surj_pair)
  have r2: "r2 = None"
    using benign_run_manual [OF assms, of e t ?gs "session_commit e s0"] by (simp add: eq2)
  show ?thesis
    using benign_run_auto [OF assms, of e t ?fs ?s q]
          run_manual_frame [of en e t ?gs "session_commit e s0" q]
    by (simp add: run_postcreate_def Let_def eq0 eq1 eq2 r2)
qed

subsection \<open>One call of get\_engine\<close>

lemma get_engine_hit:
  "db_engines (fst st) (get_fully_qualified_db db t) = Some e \<Longrightarrow>
   get_engine cfg en db t st = (Inr e, st)"
  by (simp add: get_engine_def Let_def)

lemma fresh_engine_facts:
  "engine_id (fst (fresh_engine cfg m q w)) = next_id w
   \<and> engine_db (fst (fresh_engine cfg m q w)) = q
   \<and> isolation_level (fst (fresh_engine cfg m q w)) = AUTOCOMMIT
   \<and> next_id (snd (fresh_engine cfg m q w)) = Suc (next_id w)
   \<and> proj (session_of q') (snd (fresh_engine cfg m q w)) = proj (session_of q') w
   \<and> proj (auto_call_of q') (snd (fresh_engine cfg m q w)) = proj (auto_call_of q') w"
  by (simp add: fresh_engine_def create_engine_def Let_def)

lemma remember_facts:
  "postcreate_auto (remember cfg m q e) = postcreate_auto m"
  "postcreate_manual (remember cfg m q e) = postcreate_manual m"
  "database_uri (remember cfg m q e) = database_uri m"
  "PG_ANTI_PERSISTENT cfg \<Longrightarrow> remember cfg m q e = m"
  "\<not> PG_ANTI_PERSISTENT cfg \<Longrightarrow>
     remember cfg m q e = m\<lparr>db_engines := (db_engines m)(q \<mapsto> e)\<rparr>"
  by (simp_all add: remember_def)

lemma create_engine_pool:
  "(if b then create_engine u q QueuePool l w else create_engine u q NullPool l w)
   = create_engine u q (if b then QueuePool else NullPool) l w"
  by simp

text \<open>The path of a cache miss, with the three places where an exception can leave.\<close>

lemma get_engine_miss_step:
  assumes miss: "db_engines m (get_fully_qualified_db db t) = None"
  shows "get_engine cfg en db t (m, w) =
      (case ensure_engine_connection cfg en
              (fst (fresh_engine cfg m (get_fully_qualified_db db t) w))
              (snd (fresh_engine cfg m (get_fully_qualified_db db t) w)) of
         (Some x, w2) \<Rightarrow> (Inl x, m, w2)
       | (None, w2) \<Rightarrow>
          (case dependencies_raise en
                  (fst (fresh_engine cfg m (get_fully_qualified_db db t) w)) of
             Some x \<Rightarrow>
               (Inl x,
                remember cfg m (get_fully_qualified_db db t)
                  (fst (fresh_engine cfg m (get_fully_qualified_db db t) w)), w2)
           | None \<Rightarrow>
              (case run_postcreate en
                      (remember cfg m (get_fully_qualified_db db t)
                         (fst (fresh_engine cfg m (get_fully_qualified_db db t) w)))
                      (fst (fresh_engine cfg m (get_fully_qualified_db db t) w)) db t
                      (emit (DependenciesCreated
                               (fst (fresh_engine cfg m (get_fully_qualified_db db t) w))) w2) of
                 (Some x, w4) \<Rightarrow>
                   (Inl x,
                    remember cfg m (get_fully_qualified_db db t)
                      (fst (fresh_engine cfg m (get_fully_qualified_db db t) w)), w4)
               | (None, w4) \<Rightarrow>
                   (Inr (fst (fresh_engine cfg m (get_fully_qualified_db db t) w)),
                    remember cfg m (get_fully_qualified_db db t)
                      (fst (fresh_engine cfg m (get_fully_qualified_db db t) w)), w4))))"
  by (simp only: get_engine_def Let_def fst_conv snd_conv miss option.case
        create_engine_pool fresh_engine_def remember_def)

lemma get_engine_miss:
  assumes miss: "db_engines m (get_fully_qualified_db db t) = None"
    and res: "get_engine cfg en db t (m, w) = (r, m', w')"
  shows "next_id w' = Suc (next_id w)"
    and "r = Inr e \<Longrightarrow>
           engine_id e = next_id w \<and> engine_db e = get_fully_qualified_db db t
           \<and> isolation_level e = AUTOCOMMIT"
    and "PG_ANTI_PERSISTENT cfg \<Longrightarrow> m' = m"
    and "postcreate_auto m' = postcreate_auto m \<and> postcreate_manual m' = postcreate_manual m
         \<and> database_uri m' = database_uri m"
    and "\<not> PG_ANTI_PERSISTENT cfg \<Longrightarrow>
           (m' = m \<and> proj (session_of q) w' = proj (session_of q) w)
           \<or> (\<exists>e'. m' = m\<lparr>db_engines := (db_engines m)(get_fully_qualified_db db t \<mapsto> e')\<rparr>
                \<and> length (proj (session_of q) w')
                    \<le> length (proj (session_of q) w)
                       + (if q = get_fully_qualified_db db t then 1 else 0))"
    and "r = Inr e \<Longrightarrow> \<not> PG_ANTI_PERSISTENT cfg \<Longrightarrow>
           db_engines m' (get_fully_qualified_db db t) = Some e"
proof -
  let ?q = "get_fully_qualified_db db t"
  let ?ew = "fresh_engine cfg m ?q w"
  let ?e = "fst ?ew"
  let ?m1 = "remember cfg m ?q ?e"
  obtain r1 w2 where ens: "ensure_engine_connection cfg en ?e (snd ?ew) = (r1, w2)"
    by (metis surj_pair)
  obtain r3 w4 where post:
    "run_postcreate en ?m1 ?e db t (emit (DependenciesCreated ?e) w2) = (r3, w4)"
    by (metis surj_pair)
  have w2: "next_id w2 = Suc (next_id w)"
           "proj (session_of q) w2 = proj (session_of q) w"
    using ensure_loop_frame [of en ?e "[0..<PG_MAX_RETRY cfg]" "snd ?ew" q]
          fresh_engine_facts [of cfg m ?q w q] ens
    by (simp_all add: ensure_engine_connection_def)
  have w4: "next_id w4 = Suc (next_id w)"
           "proj (session_of q) w4 = proj (session_of q) w @ (if ?q = q then [?e] else [])"
    using run_postcreate_frame [of en ?m1 ?e db t "emit (DependenciesCreated ?e) w2" q]
          fresh_engine_facts [of cfg m ?q w q] post w2
    by simp_all
  have unfold: "(r, m', w') =
      (case r1 of
         Some x \<Rightarrow> (Inl x, m, w2)
       | None \<Rightarrow>
          (case dependencies_raise en ?e of
             Some x \<Rightarrow> (Inl x, ?m1, w2)
           | None \<Rightarrow> (case r3 of Some x \<Rightarrow> (Inl x, ?m1, w4) | None \<Rightarrow> (Inr ?e, ?m1, w4))))"
    using res unfolding get_engine_miss_step [OF miss] ens
    by (cases r1; cases r3) (simp_all only: prod.case option.case post)
  show "next_id w' = Suc (next_id w)"
    using unfold w2 w4 by (auto split: option.splits)
  show "r = Inr e \<Longrightarrow>
           engine_id e = next_id w \<and> engine_db e = ?q \<and> isolation_level e = AUTOCOMMIT"
    using unfold fresh_engine_facts [of cfg m ?q w q]
    by (auto split: option.splits)
  show "PG_ANTI_PERSISTENT cfg \<Longrightarrow> m' = m"
    using unfold by (auto simp: remember_facts split: option.splits)
  show "postcreate_auto m' = postcreate_auto m \<and> postcreate_manual m' = postcreate_manual m
         \<and> database_uri m' = database_uri m"
    using unfold by (auto simp: remember_facts split: option.splits)
  show "\<not> PG_ANTI_PERSISTENT cfg \<Longrightarrow>
           (m' = m \<and> proj (session_of q) w' = proj (session_of q) w)
           \<or> (\<exists>e'. m' = m\<lparr>db_engines := (db_engines m)(?q \<mapsto> e')\<rparr>
                \<and> length (proj (session_of q) w')
                    \<le> length (proj (session_of q) w) + (if q = ?q then 1 else 0))"
    using unfold w2 w4 by (auto simp: remember_facts split: option.splits)
  show "r = Inr e \<Longrightarrow> \<not> PG_ANTI_PERSISTENT cfg \<Longrightarrow> db_engines m' ?q = Some e"
    using unfold by (auto simp: remember_facts split: option.splits)
qed

lemma get_engine_miss_benign:
  assumes ok: "benign en"
    and miss: "db_engines m (get_fully_qualified_db db t) = None"
  shows "fst (get_engine cfg en db t (m, w))
           = Inr (fst (fresh_engine cfg m (get_fully_qualified_db db t) w))"
    and "fst (snd (get_engine cfg en db t (m, w)))
           = remember cfg m (get_fully_qualified_db db t)
               (fst (fresh_engine cfg m (get_fully_qualified_db db t) w))"
    and "proj (auto_call_of q) (snd (snd (get_engine cfg en db t (m, w))))
           = proj (auto_call_of q) w
             @ (if q = get_fully_qualified_db db t then hook_calls m (db, t) else [])"
proof -
  let ?q = "get_fully_qualified_db db t"
  let ?ew = "fresh_engine cfg m ?q w"
  let ?e = "fst ?ew"
  let ?m1 = "remember cfg m ?q ?e"
  obtain r1 w2 where ens: "ensure_engine_connection cfg en ?e (snd ?ew) = (r1, w2)"
    by (metis surj_pair)
  obtain r3 w4 where post:
    "run_postcreate en ?m1 ?e db t (emit (DependenciesCreated ?e) w2) = (r3, w4)"
    by (metis surj_pair)
  have r1: "r1 = None"
    using benign_ensure_loop [OF ok, of ?e "[0..<PG_MAX_RETRY cfg]" "snd ?ew"] ens
    by (simp add: ensure_engine_connection_def)
  have dep: "dependencies_raise en ?e = None"
    using ok by (simp add: benign_def)
  have r3: "r3 = None"
    using benign_run_postcreate [OF ok, of ?m1 ?e db t "emit (DependenciesCreated ?e) w2" q]
    by (simp add: post)
  have w2: "proj (auto_call_of q) w2 = proj (auto_call_of q) w"
    using ensure_loop_frame [of en ?e "[0..<PG_MAX_RETRY cfg]" "snd ?ew" q]
          fresh_engine_facts [of cfg m ?q w q] ens
    by (simp add: ensure_engine_connection_def)
  have w4: "proj (auto_call_of q) w4
              = proj (auto_call_of q) w @ (if q = ?q then hook_calls m (db, t) else [])"
    using benign_run_postcreate [OF ok, of ?m1 ?e db t "emit (DependenciesCreated ?e) w2" q]
          fresh_engine_facts [of cfg m ?q w q] w2
    by (auto simp add: post remember_facts hook_calls_def)
  have eq: "get_engine cfg en db t (m, w) = (Inr ?e, ?m1, w4)"
    unfolding get_engine_miss_step [OF miss] ens r1
    by (simp only: prod.case option.case dep post r3)
  show "fst (get_engine cfg en db t (m, w)) = Inr ?e"
    by (simp add: eq)
  show "fst (snd (get_engine cfg en db t (m, w))) = ?m1"
    by (simp add: eq)
  show "proj (auto_call_of q) (snd (snd (get_engine cfg en db t (m, w))))
           = proj (auto_call_of q) w @ (if q = ?q then hook_calls m (db, t) else [])"
    by (simp add: eq w4)
qed

subsection \<open>Any number of calls\<close>

lemma calls_runs_bound:
  assumes cached: "\<not> PG_ANTI_PERSISTENT cfg"
  shows "length (proj (session_of q) (snd (get_engine_calls cfg en cs (m, w))))
         \<le> length (proj (session_of q) w) + (if db_engines m q = None then 1 else 0)"
proof (induction cs arbitrary: m w)
  case Nil
  show ?case by simp
next
  case (Cons c cs)
  let ?qc = "get_fully_qualified_db (fst c) (snd c)"
  show ?case
  proof (cases "db_engines m ?qc")
    case (Some e)
    then have "get_engine cfg en (fst c) (snd c) (m, w) = (Inr e, m, w)"
      using get_engine_hit [of "(m, w)" "fst c" "snd c" e cfg en] by simp
    then show ?thesis
      using Cons.IH [of m w] by simp
  next
    case None
    obtain r m' w' where res: "get_engine cfg en (fst c) (snd c) (m, w) = (r, m', w')"
      by (metis surj_pair)
    have "(m' = m \<and> proj (session_of q) w' = proj (session_of q) w)
           \<or> (\<exists>e'. m' = m\<lparr>db_engines := (db_engines m)(?qc \<mapsto> e')\<rparr>
                \<and> length (proj (session_of q) w')
                    \<le> length (proj (session_of q) w) + (if q = ?qc then 1 else 0))"
      using get_engine_miss(5) [OF None res cached] .
    then show ?thesis
    proof
      assume "m' = m \<and> proj (session_of q) w' = proj (session_of q) w"
      then show ?thesis
        using Cons.IH [of m' w'] by (simp add: res)
    next
      assume "\<exists>e'. m' = m\<lparr>db_engines := (db_engines m)(?qc \<mapsto> e')\<rparr>
                \<and> length (proj (session_of q) w')
                    \<le> length (proj (session_of q) w) + (if q = ?qc then 1 else 0)"
      then obtain e' where m': "m' = m\<lparr>db_engines := (db_engines m)(?qc \<mapsto> e')\<rparr>"
        and len: "length (proj (session_of q) w')
                    \<le> length (proj (session_of q) w) + (if q = ?qc then 1 else 0)"
        by blast
      show ?thesis
      proof (cases "q = ?qc")
        case True
        have hit: "db_engines m' q = Some e'" by (simp add: m' True)
        have "length (proj (session_of q) (snd (get_engine_calls cfg en cs (m', w'))))
                \<le> length (proj (session_of q) w')"
          using Cons.IH [of m' w'] by (simp add: hit)
        also have "\<dots> \<le> length (proj (session_of q) w) + 1"
          using len True by simp
        finally show ?thesis
          using None True by (simp add: res)
      next
        case False
        have same: "db_engines m' q = db_engines m q" by (simp add: m' False)
        have "length (proj (session_of q) w') \<le> length (proj (session_of q) w)"
          using len False by simp
        then show ?thesis
          using Cons.IH [of m' w'] by (simp add: res same)
      qed
    qed
  qed
qed

lemma calls_auto_cached:
  assumes ok: "benign en" and cached: "\<not> PG_ANTI_PERSISTENT cfg"
  shows "proj (auto_call_of q) (snd (get_engine_calls cfg en cs (m, w)))
         = proj (auto_call_of q) w
           @ (if db_engines m q \<noteq> None then []
              else case find (\<lambda>c. qualified_name c = q) cs of
                     None \<Rightarrow> []
                   | Some c \<Rightarrow> hook_calls m c)"
proof (induction cs arbitrary: m w)
  case Nil
  show ?case by simp
next
  case (Cons c cs)
  let ?qc = "get_fully_qualified_db (fst c) (snd c)"
  have qc: "qualified_name c = ?qc" by (simp add: qualified_name_def)
  show ?case
  proof (cases "db_engines m ?qc")
    case (Some e)
    then have "get_engine cfg en (fst c) (snd c) (m, w) = (Inr e, m, w)"
      using get_engine_hit [of "(m, w)" "fst c" "snd c" e cfg en] by simp
    then show ?thesis
      using Cons.IH [of m w] Some by (auto simp add: qc)
  next
    case None
    let ?e = "fst (fresh_engine cfg m ?qc w)"
    let ?m' = "m\<lparr>db_engines := (db_engines m)(?qc \<mapsto> ?e)\<rparr>"
    obtain r m' w' where res: "get_engine cfg en (fst c) (snd c) (m, w) = (r, m', w')"
      by (metis surj_pair)
    have m': "m' = ?m'"
      using get_engine_miss_benign(2) [OF ok None, of cfg w] cached
      by (simp add: res remember_facts)
    have w': "proj (auto_call_of q) w'
                = proj (auto_call_of q) w @ (if q = ?qc then hook_calls m c else [])"
      using get_engine_miss_benign(3) [OF ok None, of q cfg w] by (simp add: res)
    have hc: "hook_calls m' = hook_calls m"
      by (rule ext) (simp add: hook_calls_def m')
    have step: "get_engine_calls cfg en (c # cs) (m, w) = get_engine_calls cfg en cs (m', w')"
      by (simp add: res)
    show ?thesis
    proof (cases "q = ?qc")
      case True
      have hit: "db_engines m' q = Some ?e" by (simp add: m' True)
      have "proj (auto_call_of q) (snd (get_engine_calls cfg en cs (m', w')))
              = proj (auto_call_of q) w'"
        using Cons.IH [of m' w'] by (simp add: hit)
      also have "\<dots> = proj (auto_call_of q) w @ hook_calls m c"
        using w' True by simp
      finally show ?thesis
        using None True by (simp add: res qc)
    next
      case False
      have same: "db_engines m' q = db_engines m q" by (simp add: m' False)
      have w'': "proj (auto_call_of q) w' = proj (auto_call_of q) w"
        using w' False by simp
      have nq: "qualified_name c \<noteq> q"
        using False by (simp add: qc)
      show ?thesis
        unfolding step Cons.IH [of m' w'] w'' same hc
        using nq by simp
    qed
  qed
qed

lemma calls_auto_anti:
  assumes ok: "benign en" and anti: "PG_ANTI_PERSISTENT cfg"
    and empty: "db_engines m = Map.empty"
  shows "fst (get_engine_calls cfg en cs (m, w)) = m
         \<and> proj (auto_call_of q) (snd (get_engine_calls cfg en cs (m, w)))
             = proj (auto_call_of q) w
               @ concat (map (hook_calls m) (filter (\<lambda>c. qualified_name c = q) cs))"
proof (induction cs arbitrary: w)
  case Nil
  show ?case by simp
next
  case (Cons c cs)
  let ?qc = "get_fully_qualified_db (fst c) (snd c)"
  have qc: "qualified_name c = ?qc" by (simp add: qualified_name_def)
  have None: "db_engines m ?qc = None" by (simp add: empty)
  obtain r m' w' where res: "get_engine cfg en (fst c) (snd c) (m, w) = (r, m', w')"
    by (metis surj_pair)
  have m': "m' = m"
    using get_engine_miss_benign(2) [OF ok None, of cfg w] anti
    by (simp add: res remember_facts)
  have w': "proj (auto_call_of q) w'
              = proj (auto_call_of q) w @ (if q = ?qc then hook_calls m c else [])"
    using get_engine_miss_benign(3) [OF ok None, of q cfg w] by (simp add: res)
  show ?case
    using Cons.IH [of w'] w' by (auto simp add: res m' qc)
qed

subsection \<open>The manual actions\<close>

lemma ensure_loop_manual:
  "proj (manual_call_for q) (snd (ensure_loop en e is w)) = proj (manual_call_for q) w"
  by (induction "is" arbitrary: w) (simp_all add: Let_def split: attempt.splits)

lemma session_execute_manual:
  "proj (manual_call_for q) (snd (snd (session_execute en e st s)))
     = proj (manual_call_for q) (snd s)"
  by (simp add: session_execute_def Let_def split: option.splits)

lemma execute_all_manual:
  "proj (manual_call_for q) (snd (snd (execute_all en e sts s)))
     = proj (manual_call_for q) (snd s)"
proof (induction sts arbitrary: s)
  case Nil
  show ?case by simp
next
  case (Cons st sts)
  obtain r s1 where eq: "session_execute en e st s = (r, s1)"
    by (metis surj_pair)
  show ?case
    using session_execute_manual [of q en e st s] Cons.IH [of s1]
    by (cases r) (simp_all add: eq)
qed

lemma run_auto_manual:
  "proj (manual_call_for q) (snd (snd (run_auto en e t fs s)))
     = proj (manual_call_for q) (snd s)"
proof (induction fs arbitrary: s)
  case Nil
  show ?case by simp
next
  case (Cons f fs)
  let ?s0 = "(fst s, emit (AutoCalled e f t) (snd s))"
  show ?case
  proof (cases "auto_fn en f t")
    case (Inl x)
    then show ?thesis by (simp add: Let_def)
  next
    case (Inr r)
    show ?thesis
    proof (cases r)
      case (Statement st)
      obtain r1 s1 where eq: "session_execute en e st ?s0 = (r1, s1)"
        by (metis surj_pair)
      show ?thesis
        using session_execute_manual [of q en e st ?s0] Cons.IH [of s1]
        by (cases r1) (simp_all add: Let_def Inr Statement eq)
    next
      case (Statements sts)
      obtain r1 s1 where eq: "execute_all en e sts ?s0 = (r1, s1)"
        by (metis surj_pair)
      show ?thesis
        using execute_all_manual [of q en e sts ?s0] Cons.IH [of s1]
        by (cases r1) (simp_all add: Let_def Inr Statements eq)
    qed
  qed
qed

lemma auto_block_manual:
  "proj (manual_call_for q) (snd (snd (auto_block en e t fs s)))
     = proj (manual_call_for q) (snd s)"
proof -
  obtain r1 s1 where eq: "run_auto en e t fs s = (r1, s1)"
    by (metis surj_pair)
  show ?thesis
    using run_auto_manual [of q en e t fs s]
    by (cases r1) (simp_all add: auto_block_def eq session_rollback_def session_commit_def)
qed

lemma benign_run_manual_calls:
  "benign en \<Longrightarrow>
   proj (manual_call_for q) (snd (snd (run_manual en e t fs s)))
     = proj (manual_call_for q) (snd s) @ (if engine_db e = q then map (\<lambda>h. (h, t)) fs else [])"
proof (induction fs arbitrary: s)
  case Nil
  show ?case by simp
next
  case (Cons f fs)
  let ?s0 = "(fst s, emit (ManualCalled e f t) (snd s))"
  obtain r1 s1 where eq: "execute_all en e (fst (manual_fn en f t)) ?s0 = (r1, s1)"
    by (metis surj_pair)
  have r1: "r1 = None"
    using benign_execute_all [OF Cons.prems, of e "fst (manual_fn en f t)" ?s0]
    by (simp add: eq)
  have none: "snd (manual_fn en f t) = None"
    using Cons.prems by (simp add: benign_def)
  have s1: "proj (manual_call_for q) (snd s1)
              = proj (manual_call_for q) (snd s) @ (if engine_db e = q then [(f, t)] else [])"
    using execute_all_manual [of q en e "fst (manual_fn en f t)" ?s0] by (simp add: eq)
  show ?case
    using Cons.IH [OF Cons.prems, of s1] s1 by (simp add: Let_def eq r1 none)
qed

lemma benign_run_postcreate_manual:
  assumes "benign en"
  shows "proj (manual_call_for q) (snd (run_postcreate en m e raw t w))
       = proj (manual_call_for q) w
         @ (if engine_db e = q
            then map (\<lambda>h. (h, t)) (dict_get_list (postcreate_manual m) raw) else [])"
proof -
  let ?s = "([], emit (SessionCreated e) w)"
  let ?fs = "dict_get_list (postcreate_auto m) raw"
  let ?gs = "dict_get_list (postcreate_manual m) raw"
  obtain r0 s0 where eq0: "run_auto en e t ?fs ?s = (r0, s0)"
    by (metis surj_pair)
  have r0: "r0 = None"
    using benign_run_auto [OF assms, of e t ?fs ?s q] by (simp add: eq0)
  have eq1: "auto_block en e t ?fs ?s = (None, session_commit e s0)"
    by (simp add: auto_block_def eq0 r0)
  have s0: "proj (manual_call_for q) (snd (session_commit e s0)) = proj (manual_call_for q) w"
    using auto_block_manual [of q en e t ?fs ?s] by (simp add: eq1)
  obtain r2 s2 where eq2: "run_manual en e t ?gs (session_commit e s0) = (r2, s2)"
    by (metis surj_pair)
  have r2: "r2 = None"
    using benign_run_manual [OF assms, of e t ?gs "session_commit e s0"] by (simp add: eq2)
  have s2: "proj (manual_call_for q) (snd s2)
              = proj (manual_call_for q) w
                @ (if engine_db e = q then map (\<lambda>h. (h, t)) ?gs else [])"
    using benign_run_manual_calls [OF assms, of q e t ?gs "session_commit e s0"] s0
    by (simp add: eq2)
  show ?thesis
    using s2 by (simp add: run_postcreate_def Let_def eq1 eq2 r2)
qed

lemma fresh_engine_manual:
  "proj (manual_call_for q') (snd (fresh_engine cfg m q w)) = proj (manual_call_for q') w"
  by (simp add: fresh_engine_def create_engine_def Let_def)

lemma get_engine_miss_benign_manual:
  assumes ok: "benign en"
    and miss: "db_engines m (get_fully_qualified_db db t) = None"
  shows "proj (manual_call_for q) (snd (snd (get_engine cfg en db t (m, w))))
           = proj (manual_call_for q) w
             @ (if q = get_fully_qualified_db db t then manual_hook_calls m (db, t) else [])"
proof -
  let ?q = "get_fully_qualified_db db t"
  let ?ew = "fresh_engine cfg m ?q w"
  let ?e = "fst ?ew"
  let ?m1 = "remember cfg m ?q ?e"
  obtain r1 w2 where ens: "ensure_engine_connection cfg en ?e (snd ?ew) = (r1, w2)"
    by (metis surj_pair)
  obtain r3 w4 where post:
    "run_postcreate en ?m1 ?e db t (emit (DependenciesCreated ?e) w2) = (r3, w4)"
    by (metis surj_pair)
  have r1: "r1 = None"
    using benign_ensure_loop [OF ok, of ?e "[0..<PG_MAX_RETRY cfg]" "snd ?ew"] ens
    by (simp add: ensure_engine_connection_def)
  have dep: "dependencies_raise en ?e = None"
    using ok by (simp add: benign_def)
  have r3: "r3 = None"
    using benign_run_postcreate [OF ok, of ?m1 ?e db t "emit (DependenciesCreated ?e) w2" q]
    by (simp add: post)
  have w2: "proj (manual_call_for q) w2 = proj (manual_call_for q) w"
    using ensure_loop_manual [of q en ?e "[0..<PG_MAX_RETRY cfg]" "snd ?ew"]
          fresh_engine_manual [of q cfg m ?q w] ens
    by (simp add: ensure_engine_connection_def)
  have w4: "proj (manual_call_for q) w4
              = proj (manual_call_for q) w
                @ (if q = ?q then manual_hook_calls m (db, t) else [])"
    using benign_run_postcreate_manual
            [OF ok, of q ?m1 ?e db t "emit (DependenciesCreated ?e) w2"]
          fresh_engine_facts [of cfg m ?q w q] w2
    by (auto simp add: post remember_facts manual_hook_calls_def)
  have eq: "get_engine cfg en db t (m, w) = (Inr ?e, ?m1, w4)"
    unfolding get_engine_miss_step [OF miss] ens r1
    by (simp only: prod.case option.case dep post r3)
  show ?thesis
    by (simp add: eq w4)
qed

lemma calls_manual_cached:
  assumes ok: "benign en" and cached: "\<not> PG_ANTI_PERSISTENT cfg"
  shows "proj (manual_call_for q) (snd (get_engine_calls cfg en cs (m, w)))
         = proj (manual_call_for q) w
           @ (if db_engines m q \<noteq> None then []
              else case find (\<lambda>c. qualified_name c = q) cs of
                     None \<Rightarrow> []
                   | Some c \<Rightarrow> manual_hook_calls m c)"
proof (induction cs arbitrary: m w)
  case Nil
  show ?case by simp
next
  case (Cons c cs)
  let ?qc = "get_fully_qualified_db (fst c) (snd c)"
  have qc: "qualified_name c = ?qc" by (simp add: qualified_name_def)
  show ?case
  proof (cases "db_engines m ?qc")
    case (Some e)
    then have "get_engine cfg en (fst c) (snd c) (m, w) = (Inr e, m, w)"
      using get_engine_hit [of "(m, w)" "fst c" "snd c" e cfg en] by simp
    then show ?thesis
      using Cons.IH [of m w] Some by (auto simp add: qc)
  next
    case None
    let ?e = "fst (fresh_engine cfg m ?qc w)"
    let ?m' = "m\<lparr>db_engines := (db_engines m)(?qc \<mapsto> ?e)\<rparr>"
    obtain r m' w' where res: "get_engine cfg en (fst c) (snd c) (m, w) = (r, m', w')"
      by (metis surj_pair)
    have m': "m' = ?m'"
      using get_engine_miss_benign(2) [OF ok None, of cfg w] cached
      by (simp add: res remember_facts)
    have w': "proj (manual_call_for q) w'
                = proj (manual_call_for q) w @ (if q = ?qc then manual_hook_calls m c else [])"
      using get_engine_miss_benign_manual [OF ok None, of q cfg w] by (simp add: res)
    have hc: "manual_hook_calls m' = manual_hook_calls m"
      by (rule ext) (simp add: manual_hook_calls_def m')
    have step: "get_engine_calls cfg en (c # cs) (m, w) = get_engine_calls cfg en cs (m', w')"
      by (simp add: res)
    show ?thesis
    proof (cases "q = ?qc")
      case True
      have hit: "db_engines m' q = Some ?e" by (simp add: m' True)
      have "proj (manual_call_for q) (snd (get_engine_calls cfg en cs (m', w')))
              = proj (manual_call_for q) w'"
        using Cons.IH [of m' w'] by (simp add: hit)
      also have "\<dots> = proj (manual_call_for q) w @ manual_hook_calls m c"
        using w' True by simp
      finally show ?thesis
        using None True by (simp add: res qc)
    next
      case False
      have same: "db_engines m' q = db_engines m q" by (simp add: m' False)
      have w'': "proj (manual_call_for q) w' = proj (manual_call_for q) w"
        using w' False by simp
      have nq: "qualified_name c \<noteq> q"
        using False by (simp add: qc)
      show ?thesis
        unfolding step Cons.IH [of m' w'] w'' same hc
        using nq by simp
    qed
  qed
qed

lemma calls_manual_anti:
  assumes ok: "benign en" and anti: "PG_ANTI_PERSISTENT cfg"
    and empty: "db_engines m = Map.empty"
  shows "proj (manual_call_for q) (snd (get_engine_calls cfg en cs (m, w)))
             = proj (manual_call_for q) w
               @ concat (map (manual_hook_calls m) (filter (\<lambda>c. qualified_name c = q) cs))"
proof (induction cs arbitrary: w)
  case Nil
  show ?case by simp
next
  case (Cons c cs)
  let ?qc = "get_fully_qualified_db (fst c) (snd c)"
  have qc: "qualified_name c = ?qc" by (simp add: qualified_name_def)
  have None: "db_engines m ?qc = None" by (simp add: empty)
  obtain r m' w' where res: "get_engine cfg en (fst c) (snd c) (m, w) = (r, m', w')"
    by (metis surj_pair)
  have m': "m' = m"
    using get_engine_miss_benign(2) [OF ok None, of cfg w] anti
    by (simp add: res remember_facts)
  have w': "proj (manual_call_for q) w'
              = proj (manual_call_for q) w @ (if q = ?qc then manual_hook_calls m c else [])"
    using get_engine_miss_benign_manual [OF ok None, of q cfg w] by (simp add: res)
  show ?case
    using Cons.IH [of w'] w' by (auto simp add: res m' qc)
qed

text \<open>\<open>_get_engine\<close> never writes the two registration tables.\<close>

lemma calls_registrations:
  "postcreate_auto (fst (get_engine_calls cfg en cs (m, w))) = postcreate_auto m
   \<and> postcreate_manual (fst (get_engine_calls cfg en cs (m, w))) = postcreate_manual m"
proof (induction cs arbitrary: m w)
  case Nil
  show ?case by simp
next
  case (Cons c cs)
  let ?qc = "get_fully_qualified_db (fst c) (snd c)"
  obtain r m' w' where res: "get_engine cfg en (fst c) (snd c) (m, w) = (r, m', w')"
    by (metis surj_pair)
  have "postcreate_auto m' = postcreate_auto m \<and> postcreate_manual m' = postcreate_manual m"
  proof (cases "db_engines m ?qc")
    case (Some e)
    then have "get_engine cfg en (fst c) (snd c) (m, w) = (Inr e, m, w)"
      using get_engine_hit [of "(m, w)" "fst c" "snd c" e cfg en] by simp
    then show ?thesis
      using res by simp
  next
    case None
    show ?thesis
      using get_engine_miss(4) [OF None res] by simp
  qed
  then show ?case
    using Cons.IH [of m' w'] by (simp add: res)
qed

text \<open>
  Claim C6. When a call of \<open>get_engine\<close> returned a pool: with caching (anti-persistent
  mode off) a second call for the same identity returns that same pool and changes
  nothing; with anti-persistent mode on and the identity not in the cache, neither call
  touches the cache, and a pool the second call returns is a different object.
\<close>

theorem get_engine_twice:
  assumes first: "fst (get_engine cfg en database tenant st) = Inr e1"
  shows "(\<not> PG_ANTI_PERSISTENT cfg \<longrightarrow>
            get_engine cfg en database tenant (snd (get_engine cfg en database tenant st))
              = (Inr e1, snd (get_engine cfg en database tenant st)))
         \<and> (PG_ANTI_PERSISTENT cfg
              \<and> db_engines (fst st) (get_fully_qualified_db database tenant) = None \<longrightarrow>
            fst (snd (get_engine cfg en database tenant st)) = fst st
            \<and> fst (snd (get_engine cfg en database tenant
                          (snd (get_engine cfg en database tenant st)))) = fst st
            \<and> (\<forall>e2. fst (get_engine cfg en database tenant
                            (snd (get_engine cfg en database tenant st))) = Inr e2
                    \<longrightarrow> engine_id e2 \<noteq> engine_id e1))"
proof -
  let ?q = "get_fully_qualified_db database tenant"
  obtain m w where st: "st = (m, w)"
    by (metis surj_pair)
  obtain r m1 w1 where res1: "get_engine cfg en database tenant (m, w) = (r, m1, w1)"
    by (metis surj_pair)
  have r: "r = Inr e1"
    using first by (simp add: st res1)
  obtain r2 m2 w2 where res2: "get_engine cfg en database tenant (m1, w1) = (r2, m2, w2)"
    by (metis surj_pair)
  have cached: "get_engine cfg en database tenant (m1, w1) = (Inr e1, m1, w1)"
    if on: "\<not> PG_ANTI_PERSISTENT cfg"
  proof (cases "db_engines m ?q")
    case None
    have "db_engines m1 ?q = Some e1"
      using get_engine_miss(6) [OF None res1 r on] .
    then show ?thesis
      using get_engine_hit [of "(m1, w1)" database tenant e1 cfg en] by simp
  next
    case (Some e)
    have "get_engine cfg en database tenant (m, w) = (Inr e, m, w)"
      using get_engine_hit [of "(m, w)" database tenant e cfg en] Some by simp
    then have "e = e1" "m1 = m" "w1 = w"
      using res1 r by simp_all
    then show ?thesis
      using get_engine_hit [of "(m, w)" database tenant e cfg en] Some by simp
  qed
  have fresh: "m1 = m \<and> m2 = m \<and> (\<forall>e2. r2 = Inr e2 \<longrightarrow> engine_id e2 \<noteq> engine_id e1)"
    if anti: "PG_ANTI_PERSISTENT cfg" and None: "db_engines m ?q = None"
  proof -
    have m1: "m1 = m"
      using get_engine_miss(3) [OF None res1 anti] .
    have None1: "db_engines m1 ?q = None"
      using None m1 by simp
    have m2: "m2 = m"
      using get_engine_miss(3) [OF None1 res2 anti] m1 by simp
    have id1: "engine_id e1 = next_id w"
      using get_engine_miss(2) [OF None res1 r] by simp
    have w1: "next_id w1 = Suc (next_id w)"
      using get_engine_miss(1) [OF None res1] .
    have "engine_id e2 = next_id w1" if "r2 = Inr e2" for e2
      using get_engine_miss(2) [OF None1 res2 that] by simp
    then show ?thesis
      using m1 m2 id1 w1 by simp
  qed
  have s1: "snd (get_engine cfg en database tenant st) = (m1, w1)"
    by (simp add: st res1)
  show ?thesis
  proof (rule conjI; rule impI)
    assume "\<not> PG_ANTI_PERSISTENT cfg"
    then show "get_engine cfg en database tenant
                 (snd (get_engine cfg en database tenant st))
               = (Inr e1, snd (get_engine cfg en database tenant st))"
      using cached by (simp add: s1)
  next
    assume "PG_ANTI_PERSISTENT cfg \<and> db_engines (fst st) ?q = None"
    then have f: "m1 = m \<and> m2 = m \<and> (\<forall>e2. r2 = Inr e2 \<longrightarrow> engine_id e2 \<noteq> engine_id e1)"
      using fresh by (simp add: st)
    show "fst (snd (get_engine cfg en database tenant st)) = fst st
            \<and> fst (snd (get_engine cfg en database tenant
                          (snd (get_engine cfg en database tenant st)))) = fst st
            \<and> (\<forall>e2. fst (get_engine cfg en database tenant
                            (snd (get_engine cfg en database tenant st))) = Inr e2
                    \<longrightarrow> engine_id e2 \<noteq> engine_id e1)"
      unfolding s1 res2 using f by (simp add: st)
  qed
qed

theorem get_engine_twice_witness:
  "fst (get_engine cfg_cached env_ok ''billing'' (Some ''acme'') (manager0, world0))
     = Inr \<lparr>engine_id = 0, engine_url = ''pg://h/acme__billing?application_name=svc'',
            engine_db = ''acme__billing'', engine_pool = NullPool,
            isolation_level = AUTOCOMMIT\<rparr>
   \<and> get_engine cfg_cached env_ok ''billing'' (Some ''acme'')
        (snd (get_engine cfg_cached env_ok ''billing'' (Some ''acme'') (manager0, world0)))
     = (Inr \<lparr>engine_id = 0, engine_url = ''pg://h/acme__billing?application_name=svc'',
             engine_db = ''acme__billing'', engine_pool = NullPool,
             isolation_level = AUTOCOMMIT\<rparr>,
        snd (get_engine cfg_cached env_ok ''billing'' (Some ''acme'') (manager0, world0)))
   \<and> fst (get_engine cfg_anti env_ok ''billing'' (Some ''acme'') (manager0, world0))
     = Inr \<lparr>engine_id = 0, engine_url = ''pg://h/acme__billing?application_name=svc'',
            engine_db = ''acme__billing'', engine_pool = NullPool,
            isolation_level = AUTOCOMMIT\<rparr>
   \<and> fst (snd (get_engine cfg_anti env_ok ''billing'' (Some ''acme'')
        (snd (get_engine cfg_anti env_ok ''billing'' (Some ''acme'') (manager0, world0)))))
     = manager0
   \<and> fst (get_engine cfg_anti env_ok ''billing'' (Some ''acme'')
        (snd (get_engine cfg_anti env_ok ''billing'' (Some ''acme'') (manager0, world0))))
     \<noteq> Inr \<lparr>engine_id = 0, engine_url = ''pg://h/acme__billing?application_name=svc'',
            engine_db = ''acme__billing'', engine_pool = NullPool,
            isolation_level = AUTOCOMMIT\<rparr>"
proof -
  let ?e = "\<lparr>engine_id = 0, engine_url = ''pg://h/acme__billing?application_name=svc'',
            engine_db = ''acme__billing'', engine_pool = NullPool,
            isolation_level = AUTOCOMMIT\<rparr>"
  have a: "fst (get_engine cfg_cached env_ok ''billing'' (Some ''acme'') (manager0, world0))
             = Inr ?e"
    by code_simp
  have b: "fst (get_engine cfg_anti env_ok ''billing'' (Some ''acme'') (manager0, world0))
             = Inr ?e"
    by code_simp
  have c: "\<not> PG_ANTI_PERSISTENT cfg_cached" "PG_ANTI_PERSISTENT cfg_anti"
    "db_engines (fst (manager0, world0 :: (string, string) world))
       (get_fully_qualified_db ''billing'' (Some ''acme'')) = None"
    by (simp_all add: cfg_cached_def cfg_anti_def manager0_def)
  show ?thesis
    using get_engine_twice [OF a] get_engine_twice [OF b] a b c
    by auto
qed

text \<open>
  Claim C1, as stated, fails in anti-persistent mode: two calls of \<open>get_engine\<close> for the
  identity \<open>(billing, acme)\<close> run the action \<open>A\<close> registered for \<open>billing\<close> twice.
\<close>

theorem hooks_rerun_in_anti_persistent_mode:
  "count_list
     (auto_calls ''acme__billing''
        (snd (get_engine_calls cfg_anti env_ok
                [(''billing'', Some ''acme''), (''billing'', Some ''acme'')]
                (manager0, world0))))
     (''A'', Some ''acme'') = 2"
  by code_simp

text \<open>
  Claim C1, amended. On a manager whose cache starts empty, for every sequence of
  \<open>get_engine\<close> calls (between which nothing is registered: \<open>get_engine\<close> itself leaves
  both registration tables as they are) and every fully-qualified name \<open>q\<close>: with
  anti-persistent mode off, \<open>run_postcreate\<close> runs at most once on the engines of \<open>q\<close>,
  whatever the collaborators do; when nothing raises, the \<open>auto\<close> actions called for \<open>q\<close>
  are exactly those registered for the raw database of the first call that names \<open>q\<close>,
  each once, in registration order, with that call's tenant, and so are the \<open>manual\<close>
  actions. With anti-persistent mode on (and nothing raising), the \<open>auto\<close> and the
  \<open>manual\<close> actions are called again at every call that names \<open>q\<close>.
\<close>

theorem postcreate_once_per_cached_identity:
  assumes "db_engines m = Map.empty" and "trace w = []"
  shows "(\<not> PG_ANTI_PERSISTENT cfg \<longrightarrow>
            postcreate_runs q (snd (get_engine_calls cfg en cs (m, w))) \<le> 1)
         \<and> (\<not> PG_ANTI_PERSISTENT cfg \<and> benign en \<longrightarrow>
            auto_calls q (snd (get_engine_calls cfg en cs (m, w)))
              = (case find (\<lambda>c. qualified_name c = q) cs of
                   None \<Rightarrow> []
                 | Some c \<Rightarrow> hook_calls m c))
         \<and> (PG_ANTI_PERSISTENT cfg \<and> benign en \<longrightarrow>
            auto_calls q (snd (get_engine_calls cfg en cs (m, w)))
              = concat (map (hook_calls m) (filter (\<lambda>c. qualified_name c = q) cs)))
         \<and> (\<not> PG_ANTI_PERSISTENT cfg \<and> benign en \<longrightarrow>
            manual_calls q (snd (get_engine_calls cfg en cs (m, w)))
              = (case find (\<lambda>c. qualified_name c = q) cs of
                   None \<Rightarrow> []
                 | Some c \<Rightarrow> manual_hook_calls m c))
         \<and> (PG_ANTI_PERSISTENT cfg \<and> benign en \<longrightarrow>
            manual_calls q (snd (get_engine_calls cfg en cs (m, w)))
              = concat (map (manual_hook_calls m) (filter (\<lambda>c. qualified_name c = q) cs)))
         \<and> postcreate_auto (fst (get_engine_calls cfg en cs (m, w))) = postcreate_auto m
         \<and> postcreate_manual (fst (get_engine_calls cfg en cs (m, w))) = postcreate_manual m"
proof -
  have start: "proj f w = []" for f :: "('a, 'b) event \<Rightarrow> 'c list"
    using assms(2) by (simp add: proj_def)
  have none: "db_engines m q = None"
    using assms(1) by simp
  have runs: "\<not> PG_ANTI_PERSISTENT cfg \<longrightarrow>
            postcreate_runs q (snd (get_engine_calls cfg en cs (m, w))) \<le> 1"
    using calls_runs_bound [of cfg q en cs m w]
    by (simp add: postcreate_runs_def start none)
  have auto1: "\<not> PG_ANTI_PERSISTENT cfg \<and> benign en \<longrightarrow>
            auto_calls q (snd (get_engine_calls cfg en cs (m, w)))
              = (case find (\<lambda>c. qualified_name c = q) cs of
                   None \<Rightarrow> []
                 | Some c \<Rightarrow> hook_calls m c)"
    using calls_auto_cached [of en cfg q cs m w]
    by (simp add: auto_calls_def start none)
  have auto2: "PG_ANTI_PERSISTENT cfg \<and> benign en \<longrightarrow>
            auto_calls q (snd (get_engine_calls cfg en cs (m, w)))
              = concat (map (hook_calls m) (filter (\<lambda>c. qualified_name c = q) cs))"
    using calls_auto_anti [of en cfg m cs w q]
    by (simp add: auto_calls_def start assms(1))
  have man1: "\<not> PG_ANTI_PERSISTENT cfg \<and> benign en \<longrightarrow>
            manual_calls q (snd (get_engine_calls cfg en cs (m, w)))
              = (case find (\<lambda>c. qualified_name c = q) cs of
                   None \<Rightarrow> []
                 | Some c \<Rightarrow> manual_hook_calls m c)"
    using calls_manual_cached [of en cfg q cs m w]
    by (simp add: manual_calls_def start none)
  have man2: "PG_ANTI_PERSISTENT cfg \<and> benign en \<longrightarrow>
            manual_calls q (snd (get_engine_calls cfg en cs (m, w)))
              = concat (map (manual_hook_calls m) (filter (\<lambda>c. qualified_name c = q) cs))"
    using calls_manual_anti [of en cfg m q cs w]
    by (simp add: manual_calls_def start assms(1))
  show ?thesis
    using runs auto1 auto2 man1 man2 calls_registrations [of cfg en cs m w] by blast
qed

theorem postcreate_once_per_cached_identity_witness:
  "postcreate_runs ''acme__billing''
     (snd (get_engine_calls cfg_cached env_manual
             [(''billing'', Some ''acme''), (''billing'', Some ''acme''),
              (''billing'', Some ''zeta'')]
             (manager_hooks, world0))) \<le> 1
   \<and> auto_calls ''acme__billing''
       (snd (get_engine_calls cfg_cached env_manual
               [(''billing'', Some ''acme''), (''billing'', Some ''acme''),
                (''billing'', Some ''zeta'')]
               (manager_hooks, world0)))
     = [(''A'', Some ''acme''), (''B'', Some ''acme'')]
   \<and> manual_calls ''acme__billing''
       (snd (get_engine_calls cfg_cached env_manual
               [(''billing'', Some ''acme''), (''billing'', Some ''acme''),
                (''billing'', Some ''zeta'')]
               (manager_hooks, world0)))
     = [(''M1'', Some ''acme''), (''M2'', Some ''acme'')]
   \<and> auto_calls ''acme__billing''
       (snd (get_engine_calls cfg_anti env_manual
               [(''billing'', Some ''acme''), (''billing'', Some ''acme''),
                (''billing'', Some ''zeta'')]
               (manager_hooks, world0)))
     = [(''A'', Some ''acme''), (''B'', Some ''acme''),
        (''A'', Some ''acme''), (''B'', Some ''acme'')]
   \<and> manual_calls ''acme__billing''
       (snd (get_engine_calls cfg_anti env_manual
               [(''billing'', Some ''acme''), (''billing'', Some ''acme''),
                (''billing'', Some ''zeta'')]
               (manager_hooks, world0)))
     = [(''M1'', Some ''acme''), (''M2'', Some ''acme''),
        (''M1'', Some ''acme''), (''M2'', Some ''acme'')]"
proof -
  let ?cs = "[(''billing'', Some ''acme''), (''billing'', Some ''acme''),
              (''billing'', Some ''zeta'')]"
  have h: "db_engines manager_hooks = Map.empty"
          "trace (world0 :: (string, string) world) = []"
          "\<not> PG_ANTI_PERSISTENT cfg_cached" "PG_ANTI_PERSISTENT cfg_anti" "benign env_manual"
    by (simp_all add: manager_hooks_def world0_def cfg_cached_def cfg_anti_def env_manual_def
          benign_def)
  have f: "find (\<lambda>c. qualified_name c = ''acme__billing'') ?cs
             = Some (''billing'', Some ''acme'')"
          "filter (\<lambda>c. qualified_name c = ''acme__billing'') ?cs
             = [(''billing'', Some ''acme''), (''billing'', Some ''acme'')]"
    by (simp_all add: qualified_name_def get_fully_qualified_db_def)
  have g: "hook_calls manager_hooks (''billing'', Some ''acme'')
             = [(''A'', Some ''acme''), (''B'', Some ''acme'')]"
          "manual_hook_calls manager_hooks (''billing'', Some ''acme'')
             = [(''M1'', Some ''acme''), (''M2'', Some ''acme'')]"
    by (simp_all add: hook_calls_def manual_hook_calls_def manager_hooks_def dict_get_list_def)
  show ?thesis
    using postcreate_once_per_cached_identity
            [OF h(1) h(2), of cfg_cached "''acme__billing''" env_manual ?cs]
          postcreate_once_per_cached_identity
            [OF h(1) h(2), of cfg_anti "''acme__billing''" env_manual ?cs]
    by (simp only: h f g option.case list.map concat.simps append.simps
          simp_thms append_Nil2)
qed

subsection \<open>What a failing hook leaves behind\<close>

lemma session_execute_effect:
  "fst (session_execute en e st s) = statement_raises en st"
  "fst (snd (session_execute en e st s))
     = fst s @ (if isolation_level e = AUTOCOMMIT \<or> statement_raises en st \<noteq> None
                then [] else [st])"
  "durable (snd (snd (session_execute en e st s)))
     = durable (snd s) @ (if isolation_level e = AUTOCOMMIT \<and> statement_raises en st = None
                          then [(engine_db e, st)] else [])"
  by (cases "statement_raises en st"; simp add: session_execute_def Let_def)+

lemma execute_all_effect:
  "fst (execute_all en e sts s)
     = (case find (\<lambda>st. statement_raises en st \<noteq> None) sts of
          None \<Rightarrow> None | Some st \<Rightarrow> statement_raises en st)
   \<and> fst (snd (execute_all en e sts s))
     = fst s @ (if isolation_level e = AUTOCOMMIT then []
                else takeWhile (\<lambda>st. statement_raises en st = None) sts)
   \<and> durable (snd (snd (execute_all en e sts s)))
     = durable (snd s)
       @ (if isolation_level e = AUTOCOMMIT
          then map (Pair (engine_db e)) (takeWhile (\<lambda>st. statement_raises en st = None) sts)
          else [])"
proof (induction sts arbitrary: s)
  case Nil
  show ?case by simp
next
  case (Cons st sts)
  obtain r s1 where eq: "session_execute en e st s = (r, s1)"
    by (metis surj_pair)
  have r: "r = statement_raises en st"
    using session_execute_effect(1) [of en e st s] by (simp add: eq)
  have s1: "fst s1 = fst s @ (if isolation_level e = AUTOCOMMIT \<or> statement_raises en st \<noteq> None
                then [] else [st])"
           "durable (snd s1)
              = durable (snd s) @ (if isolation_level e = AUTOCOMMIT \<and> statement_raises en st = None
                          then [(engine_db e, st)] else [])"
    using session_execute_effect(2,3) [of en e st s] by (simp_all add: eq)
  show ?case
  proof (cases "statement_raises en st")
    case None
    then show ?thesis
      using Cons.IH [of s1] s1 r by (simp add: eq)
  next
    case (Some x)
    then show ?thesis
      using s1 r by (simp add: eq)
  qed
qed

lemma find_raises_None:
  "(find (\<lambda>st. statement_raises en st \<noteq> None) sts = None)
     = (\<not> (\<exists>st \<in> set sts. statement_raises en st \<noteq> None))"
  by (auto simp add: find_None_iff)

lemma takeWhile_all_ok:
  "\<not> (\<exists>st \<in> set sts. statement_raises en st \<noteq> None) \<Longrightarrow>
   takeWhile (\<lambda>st. statement_raises en st = None) sts = sts"
  by (simp add: takeWhile_eq_all_conv)

lemma find_raises_Some:
  "find (\<lambda>st. statement_raises en st \<noteq> None) sts = Some st \<Longrightarrow>
   (\<exists>st \<in> set sts. statement_raises en st \<noteq> None) \<and> statement_raises en st \<noteq> None"
  by (auto simp add: find_Some_iff)

lemma run_auto_effect:
  "fst (run_auto en e t fs s) = first_failure en t fs
   \<and> fst (snd (run_auto en e t fs s))
     = fst s @ (if isolation_level e = AUTOCOMMIT then [] else executed_before_failure en t fs)
   \<and> durable (snd (snd (run_auto en e t fs s)))
     = durable (snd s)
       @ (if isolation_level e = AUTOCOMMIT
          then map (Pair (engine_db e)) (executed_before_failure en t fs) else [])"
proof (induction fs arbitrary: s)
  case Nil
  show ?case by simp
next
  case (Cons f fs)
  let ?s0 = "(fst s, emit (AutoCalled e f t) (snd s))"
  show ?case
  proof (cases "auto_fn en f t")
    case (Inl x)
    then show ?thesis by (simp add: Let_def)
  next
    case (Inr r)
    let ?sts = "statements_of r"
    obtain r1 s1 where eq: "execute_all en e ?sts ?s0 = (r1, s1)"
      by (metis surj_pair)
    have body: "run_auto en e t (f # fs) s
                  = (case r1 of Some x \<Rightarrow> (Some x, s1) | None \<Rightarrow> run_auto en e t fs s1)"
    proof (cases r)
      case (Statements sts)
      then show ?thesis
        using eq by (simp add: Let_def Inr statements_of_def)
    next
      case (Statement st)
      obtain r0 s0 where e0: "session_execute en e st ?s0 = (r0, s0)"
        by (metis surj_pair)
      have "execute_all en e [st] ?s0 = (r0, s0)"
        by (cases r0) (simp_all add: e0)
      then have "r1 = r0" "s1 = s0"
        using eq by (simp_all add: Statement statements_of_def)
      then show ?thesis
        by (cases r0) (simp_all add: Let_def Inr Statement e0)
    qed
    have eff: "r1 = (case find (\<lambda>st. statement_raises en st \<noteq> None) ?sts of
                       None \<Rightarrow> None | Some st \<Rightarrow> statement_raises en st)"
      "fst s1 = fst s @ (if isolation_level e = AUTOCOMMIT then []
                else takeWhile (\<lambda>st. statement_raises en st = None) ?sts)"
      "durable (snd s1) = durable (snd s)
         @ (if isolation_level e = AUTOCOMMIT
            then map (Pair (engine_db e)) (takeWhile (\<lambda>st. statement_raises en st = None) ?sts)
            else [])"
      using execute_all_effect [of en e ?sts ?s0] by (simp_all add: eq)
    show ?thesis
    proof (cases "find (\<lambda>st. statement_raises en st \<noteq> None) ?sts")
      case None
      have all: "\<not> (\<exists>st \<in> set ?sts. statement_raises en st \<noteq> None)"
        using None find_raises_None [of en ?sts] by simp
      have r1: "r1 = None"
        using eff(1) None by simp
      have ff: "first_failure en t (f # fs) = first_failure en t fs"
        using Inr None by simp
      have ebf: "executed_before_failure en t (f # fs)
                   = ?sts @ executed_before_failure en t fs"
        using Inr all by simp
      show ?thesis
        unfolding body r1 ff ebf
        using Cons.IH [of s1] eff(2,3) [unfolded takeWhile_all_ok [OF all]] by simp
    next
      case (Some bad)
      have ex: "\<exists>st \<in> set ?sts. statement_raises en st \<noteq> None"
        and bad: "statement_raises en bad \<noteq> None"
        using find_raises_Some [OF Some] by simp_all
      obtain x where x: "statement_raises en bad = Some x"
        using bad by auto
      have r1: "r1 = Some x"
        using eff(1) Some x by simp
      have ff: "first_failure en t (f # fs) = Some x"
        using Inr Some x by simp
      have ebf: "executed_before_failure en t (f # fs)
                   = takeWhile (\<lambda>st. statement_raises en st = None) ?sts"
        using Inr ex by simp
      show ?thesis
        unfolding body r1 ff ebf
        using eff(2,3) by simp
    qed
  qed
qed

lemma auto_block_effect:
  "fst (auto_block en e t fs ([], w)) = first_failure en t fs
   \<and> durable (snd (snd (auto_block en e t fs ([], w))))
     = durable w
       @ (if isolation_level e = AUTOCOMMIT \<or> first_failure en t fs = None
          then map (Pair (engine_db e)) (executed_before_failure en t fs) else [])
   \<and> fst (snd (auto_block en e t fs ([], w))) = []
   \<and> proj manual_call_of (snd (snd (auto_block en e t fs ([], w)))) = proj manual_call_of w"
proof -
  obtain r1 s1 where eq: "run_auto en e t fs ([], w) = (r1, s1)"
    by (metis surj_pair)
  have eff: "r1 = first_failure en t fs"
    "fst s1 = (if isolation_level e = AUTOCOMMIT then [] else executed_before_failure en t fs)"
    "durable (snd s1) = durable w
       @ (if isolation_level e = AUTOCOMMIT
          then map (Pair (engine_db e)) (executed_before_failure en t fs) else [])"
    using run_auto_effect [of en e t fs "([], w)"] by (simp_all add: eq)
  have fr: "proj manual_call_of (snd s1) = proj manual_call_of w"
    using run_auto_frame [of en e t fs "([], w)"] by (simp add: eq)
  show ?thesis
  proof (cases r1)
    case None
    then show ?thesis
      using eff fr by (simp add: auto_block_def eq session_commit_def)
  next
    case (Some x)
    then show ?thesis
      using eff fr by (simp add: auto_block_def eq session_rollback_def)
  qed
qed

lemma run_postcreate_failure:
  assumes "first_failure en t (dict_get_list (postcreate_auto m) raw) = Some x"
  shows "fst (run_postcreate en m e raw t w) = Some x
   \<and> proj manual_call_of (snd (run_postcreate en m e raw t w)) = proj manual_call_of w
   \<and> durable (snd (run_postcreate en m e raw t w))
       = durable w
         @ (if isolation_level e = AUTOCOMMIT
            then map (Pair (engine_db e))
                   (executed_before_failure en t (dict_get_list (postcreate_auto m) raw))
            else [])"
proof -
  let ?fs = "dict_get_list (postcreate_auto m) raw"
  let ?w = "emit (SessionCreated e) w"
  obtain r1 s1 where eq: "auto_block en e t ?fs ([], ?w) = (r1, s1)"
    by (metis surj_pair)
  have "r1 = Some x"
    using auto_block_effect [of en e t ?fs ?w] assms by (simp add: eq)
  then show ?thesis
    using auto_block_effect [of en e t ?fs ?w] assms
    by (simp add: run_postcreate_def Let_def eq)
qed

lemma reachable_ensure_loop: "reachable en \<Longrightarrow> fst (ensure_loop en e is w) = None"
proof (induction "is" arbitrary: w)
  case Nil
  show ?case by simp
next
  case (Cons i "is")
  have b: "case probe en (attempts w) of Connected \<Rightarrow> True
        | Raises x \<Rightarrow> exn_cls x = OperationalError"
    using Cons.prems by (simp add: reachable_def)
  show ?case
  proof (cases "probe en (attempts w)")
    case Connected
    then show ?thesis by (simp add: Let_def)
  next
    case (Raises x)
    then have "exn_cls x = OperationalError"
      using b by simp
    then show ?thesis
      using Cons.IH [OF Cons.prems] by (simp add: Let_def Raises)
  qed
qed

lemma fresh_engine_durable:
  "durable (snd (fresh_engine cfg m q w)) = durable w"
  by (simp add: fresh_engine_def create_engine_def Let_def)

lemma get_engine_hook_failure:
  assumes ok: "reachable en"
    and miss: "db_engines m (get_fully_qualified_db db t) = None"
    and bad: "first_failure en t (dict_get_list (postcreate_auto m) db) = Some x"
  shows "fst (get_engine cfg en db t (m, w)) = Inl x
   \<and> durable (snd (snd (get_engine cfg en db t (m, w))))
       = durable w
         @ map (Pair (get_fully_qualified_db db t))
             (executed_before_failure en t (dict_get_list (postcreate_auto m) db))"
proof -
  let ?q = "get_fully_qualified_db db t"
  let ?ew = "fresh_engine cfg m ?q w"
  let ?e = "fst ?ew"
  let ?m1 = "remember cfg m ?q ?e"
  obtain r1 w2 where ens: "ensure_engine_connection cfg en ?e (snd ?ew) = (r1, w2)"
    by (metis surj_pair)
  obtain r3 w4 where post:
    "run_postcreate en ?m1 ?e db t (emit (DependenciesCreated ?e) w2) = (r3, w4)"
    by (metis surj_pair)
  have r1: "r1 = None"
    using reachable_ensure_loop [OF ok, of ?e "[0..<PG_MAX_RETRY cfg]" "snd ?ew"] ens
    by (simp add: ensure_engine_connection_def)
  have dep: "dependencies_raise en ?e = None"
    using ok by (simp add: reachable_def)
  have w2: "durable w2 = durable w"
    using ensure_loop_frame [of en ?e "[0..<PG_MAX_RETRY cfg]" "snd ?ew" ?q] ens
    by (simp add: ensure_engine_connection_def fresh_engine_durable)
  have bad1: "first_failure en t (dict_get_list (postcreate_auto ?m1) db) = Some x"
    using bad by (simp add: remember_facts)
  have r3: "r3 = Some x"
    and w4: "durable w4 = durable w
               @ map (Pair ?q) (executed_before_failure en t (dict_get_list (postcreate_auto m) db))"
    using run_postcreate_failure [OF bad1, of ?e "emit (DependenciesCreated ?e) w2"]
          fresh_engine_facts [of cfg m ?q w ?q] w2
    by (simp_all add: post remember_facts)
  have eq: "get_engine cfg en db t (m, w) = (Inl x, ?m1, w4)"
    unfolding get_engine_miss_step [OF miss] ens r1
    by (simp only: prod.case option.case dep post r3)
  show ?thesis
    by (simp add: eq w4)
qed

text \<open>
  Claim C3, as stated, fails: \<open>_get_engine\<close> creates its engines with isolation level
  \<open>AUTOCOMMIT\<close>. With the actions \<open>A\<close>, \<open>BAD\<close>, \<open>C\<close> registered for \<open>billing\<close>, the
  statement of \<open>BAD\<close> raises and leaves \<open>get_engine\<close>, and the statement of \<open>A\<close> stays
  in the database.
\<close>

theorem failed_hook_leaves_earlier_statements:
  "fst (get_engine cfg_cached env_bad ''billing'' (Some ''acme'') (manager_bad, world0))
     = Inl (Exn OtherError ''syntax error'')
   \<and> durable (snd (snd (get_engine cfg_cached env_bad ''billing'' (Some ''acme'')
                          (manager_bad, world0))))
     = [(''acme__billing'', ''A'')]"
  by code_simp

text \<open>
  Claim C3, amended. All \<open>auto\<close> actions run inside the one \<open>session.begin()\<close> block. When
  an action or one of its statements raises, \<open>run_postcreate\<close> raises the same exception and
  calls no \<open>manual\<close> action; on an engine whose isolation level is not \<open>AUTOCOMMIT\<close> nothing
  of the block is persisted, and on an \<open>AUTOCOMMIT\<close> engine the statements executed before
  the failure stay persisted. The engines \<open>_get_engine\<close> creates are \<open>AUTOCOMMIT\<close> engines:
  on a cache miss with a reachable server, a failing hook makes \<open>_get_engine\<close> raise and
  leaves the statements executed before the failure in the database.
\<close>

theorem auto_hooks_atomic_unless_autocommit:
  "(first_failure en t (dict_get_list (postcreate_auto m) raw) = Some x \<longrightarrow>
      fst (run_postcreate en m e raw t w) = Some x
      \<and> proj manual_call_of (snd (run_postcreate en m e raw t w)) = proj manual_call_of w
      \<and> durable (snd (run_postcreate en m e raw t w))
          = durable w
            @ (if isolation_level e = AUTOCOMMIT
               then map (Pair (engine_db e))
                      (executed_before_failure en t (dict_get_list (postcreate_auto m) raw))
               else []))
   \<and> (reachable en \<and> db_engines m (get_fully_qualified_db raw t) = None
        \<and> first_failure en t (dict_get_list (postcreate_auto m) raw) = Some x \<longrightarrow>
      fst (get_engine cfg en raw t (m, w)) = Inl x
      \<and> durable (snd (snd (get_engine cfg en raw t (m, w))))
          = durable w
            @ map (Pair (get_fully_qualified_db raw t))
                (executed_before_failure en t (dict_get_list (postcreate_auto m) raw)))"
  using run_postcreate_failure [of en t m raw x e w]
        get_engine_hook_failure [of en m raw t x cfg w]
  by blast

theorem auto_hooks_atomic_unless_autocommit_witness:
  "fst (run_postcreate env_bad manager_bad engine_tx ''billing'' (Some ''acme'') world0)
     = Some (Exn OtherError ''syntax error'')
   \<and> durable (snd (run_postcreate env_bad manager_bad engine_tx ''billing'' (Some ''acme'')
                     world0)) = []
   \<and> fst (get_engine cfg_cached env_bad ''billing'' (Some ''acme'') (manager_bad, world0))
     = Inl (Exn OtherError ''syntax error'')
   \<and> durable (snd (snd (get_engine cfg_cached env_bad ''billing'' (Some ''acme'')
                          (manager_bad, world0))))
     = [(''acme__billing'', ''A'')]"
proof -
  have ff: "first_failure env_bad (Some ''acme'')
              (dict_get_list (postcreate_auto manager_bad) ''billing'')
            = Some (Exn OtherError ''syntax error'')"
    by (simp add: env_bad_def manager_bad_def dict_get_list_def statements_of_def)
  have eb: "executed_before_failure env_bad (Some ''acme'')
              (dict_get_list (postcreate_auto manager_bad) ''billing'') = [''A'']"
    by (simp add: env_bad_def manager_bad_def dict_get_list_def statements_of_def)
  have h: "reachable env_bad"
          "db_engines manager_bad ''acme__billing'' = None"
          "isolation_level engine_tx \<noteq> AUTOCOMMIT"
          "durable (world0 :: (string, string) world) = []"
          "get_fully_qualified_db ''billing'' (Some ''acme'') = ''acme__billing''"
    by (simp_all add: reachable_def env_bad_def manager_bad_def engine_tx_def world0_def
          get_fully_qualified_db_def)
  have "(fst (run_postcreate env_bad manager_bad engine_tx ''billing'' (Some ''acme'') world0)
            = Some (Exn OtherError ''syntax error'')
         \<and> proj manual_call_of
              (snd (run_postcreate env_bad manager_bad engine_tx ''billing'' (Some ''acme'')
                      world0))
            = proj manual_call_of (world0 :: (string, string) world)
         \<and> durable (snd (run_postcreate env_bad manager_bad engine_tx ''billing''
                           (Some ''acme'') world0)) = [])
        \<and> (fst (get_engine cfg_cached env_bad ''billing'' (Some ''acme'')
                   (manager_bad, world0))
            = Inl (Exn OtherError ''syntax error'')
           \<and> durable (snd (snd (get_engine cfg_cached env_bad ''billing'' (Some ''acme'')
                                  (manager_bad, world0))))
            = [(''acme__billing'', ''A'')])"
    using auto_hooks_atomic_unless_autocommit
            [of env_bad "Some ''acme''" manager_bad "''billing''"
                "Exn OtherError ''syntax error''" engine_tx world0 cfg_cached]
    by (simp only: ff eb h simp_thms if_False list.map append.simps)
  then show ?thesis
    by blast
qed


subsection \<open>Name resolution\<close>

lemma getattr_ref_loaded:
  "getattr_ref en (MLoaded mo) n
     = (case mod_attrs mo n of Some v \<Rightarrow> Inr v | None \<Rightarrow> Inl (Exn AttributeError n))"
  by (simp add: getattr_ref_def)

text \<open>
  Claim C7. Against a loaded module, \<open>get_declarative_class\<close> returns the binding of the
  first of the Pascal-cased name, the \<open>t_\<close>-prefixed name, the name itself and the name
  without underscores that the module binds, and \<open>None\<close> (no exception) when it binds none
  of the four.
\<close>

theorem get_declarative_class_first_match:
  assumes "declarative_module u = MLoaded mo"
  shows "get_declarative_class en u table_name
           = first_binding (mod_attrs mo) (candidate_names en table_name)
         \<and> (get_declarative_class en u table_name = None
              \<longleftrightarrow> (\<forall>n \<in> set (candidate_names en table_name). mod_attrs mo n = None))"
proof -
  have eq: "get_declarative_class en u table_name
              = first_binding (mod_attrs mo) (candidate_names en table_name)"
    using assms
    by (simp add: get_declarative_class_def truthy_def getattr_ref_loaded candidate_names_def
             split: option.splits)
  have none: "(first_binding a ns = None) \<longleftrightarrow> (\<forall>n \<in> set ns. a n = None)"
    for a :: "string \<rightharpoonup> 'a" and ns
    by (induction ns) (auto split: option.splits)
  show ?thesis
    using eq none [of "mod_attrs mo" "candidate_names en table_name"] by simp
qed

theorem get_declarative_class_first_match_witness:
  "candidate_names denv_ok ''user_profile''
     = [''UserProfile'', ''t_user_profile'', ''user_profile'', ''userprofile'']
   \<and> get_declarative_class denv_ok utils_loaded ''user_profile'' = Some 1
   \<and> get_declarative_class denv_ok utils_loaded ''orders'' = None"
proof -
  let ?mo = "\<lparr>mod_id = 1, mod_name = ''acme.async_billing_public'', mod_source = ''v0'',
              mod_attrs = [''t_user_profile'' \<mapsto> 1::nat, ''userprofile'' \<mapsto> 2]\<rparr>"
  have m: "declarative_module utils_loaded = MLoaded ?mo"
    by (simp add: utils_loaded_def)
  have c: "candidate_names denv_ok ''user_profile''
             = [''UserProfile'', ''t_user_profile'', ''user_profile'', ''userprofile'']"
          "candidate_names denv_ok ''orders'' = [''orders'', ''t_orders'', ''orders'', ''orders'']"
    by (simp_all add: candidate_names_def denv_ok_def)
  show ?thesis
    using get_declarative_class_first_match [OF m, of denv_ok "''user_profile''"]
          get_declarative_class_first_match [OF m, of denv_ok "''orders''"]
    by (simp add: c)
qed

text \<open>
  Claim C9. The key of the binding cache joins database, tenant and schema with single
  underscores. The distinct triples \<open>(a, b_c, s)\<close> and \<open>(a_b, c, s)\<close> have the same key,
  and a lookup for the second, after one for the first, returns the object created for
  the first: the same identity, with database \<open>a\<close> and tenant \<open>b_c\<close>.
\<close>

theorem cache_key_collision:
  "cache_key ''a'' ''b_c'' ''s'' = cache_key ''a_b'' ''c'' ''s''
   \<and> (''a'', ''b_c'', ''s'') \<noteq> (''a_b'', ''c'', ''s'')
   \<and> identity_of (fst first_lookup) = Some (0, ''a'', ''b_c'', ''s'')
   \<and> identity_of (fst second_lookup) = Some (0, ''a'', ''b_c'', ''s'')"
  by code_simp


subsection \<open>The binding cache: what each step leaves alone\<close>

lemma str_contains_append: "str_contains p (p @ s)"
proof (cases "p @ s")
  case Nil
  then show ?thesis by simp
next
  case (Cons a l)
  have "prefix p (a # l)"
    using Cons by (metis prefixI)
  then have "str_contains p (a # l)"
    by simp
  then show ?thesis
    by (simp only: Cons)
qed

lemma demit_fields [simp]:
  "dirs (demit ev w) = dirs w"
  "files (demit ev w) = files w"
  "sys_modules (demit ev w) = sys_modules w"
  "bases (demit ev w) = bases w"
  "declarative_utils (demit ev w) = declarative_utils w"
  "next_obj (demit ev w) = next_obj w"
  "gens (demit ev w) = gens w"
  "execs (demit ev w) = execs w"
  "dtrace (demit ev w) = dtrace w @ [ev]"
  by (simp_all add: demit_def)

lemma write_file_fields [simp]:
  "dirs (write_file p text w) = dirs w"
  "files (write_file p text w) = (files w)(p \<mapsto> text)"
  "sys_modules (write_file p text w) = sys_modules w"
  "bases (write_file p text w) = bases w"
  "declarative_utils (write_file p text w) = declarative_utils w"
  "next_obj (write_file p text w) = next_obj w"
  "gens (write_file p text w) = gens w"
  "execs (write_file p text w) = execs w"
  "dtrace (write_file p text w) = dtrace w @ [WroteFile p]"
  by (simp_all add: write_file_def)

lemma readers_demit [simp]:
  "reloaded (demit ev w) = reloaded w @ reload_of ev"
  "imported (demit ev w) = imported w @ import_of ev"
  "written p (demit ev w) = written p w + (if ev = WroteFile p then 1 else 0)"
  "refreshes (demit ev w) = refreshes w + length (removal_of ev)"
  by (simp_all add: reloaded_def imported_def written_def refreshes_def demit_def)

lemma readers_update [simp]:
  "reloaded (w\<lparr>gens := g\<rparr>) = reloaded w"
  "imported (w\<lparr>gens := g\<rparr>) = imported w"
  "written p (w\<lparr>gens := g\<rparr>) = written p w"
  "reloaded (w\<lparr>files := f\<rparr>) = reloaded w"
  "imported (w\<lparr>files := f\<rparr>) = imported w"
  "written p (w\<lparr>files := f\<rparr>) = written p w"
  "reloaded (w\<lparr>dirs := d\<rparr>) = reloaded w"
  "imported (w\<lparr>dirs := d\<rparr>) = imported w"
  "written p (w\<lparr>dirs := d\<rparr>) = written p w"
  "reloaded (w\<lparr>execs := x\<rparr>) = reloaded w"
  "imported (w\<lparr>execs := x\<rparr>) = imported w"
  "written p (w\<lparr>execs := x\<rparr>) = written p w"
  "reloaded (w\<lparr>next_obj := n\<rparr>) = reloaded w"
  "imported (w\<lparr>next_obj := n\<rparr>) = imported w"
  "written p (w\<lparr>next_obj := n\<rparr>) = written p w"
  "reloaded (w\<lparr>sys_modules := sm\<rparr>) = reloaded w"
  "imported (w\<lparr>sys_modules := sm\<rparr>) = imported w"
  "written p (w\<lparr>sys_modules := sm\<rparr>) = written p w"
  "reloaded (w\<lparr>bases := b\<rparr>) = reloaded w"
  "imported (w\<lparr>bases := b\<rparr>) = imported w"
  "written p (w\<lparr>bases := b\<rparr>) = written p w"
  "reloaded (w\<lparr>declarative_utils := du\<rparr>) = reloaded w"
  "imported (w\<lparr>declarative_utils := du\<rparr>) = imported w"
  "written p (w\<lparr>declarative_utils := du\<rparr>) = written p w"
  "refreshes (w\<lparr>gens := g\<rparr>) = refreshes w"
  "refreshes (w\<lparr>files := f\<rparr>) = refreshes w"
  "refreshes (w\<lparr>dirs := d\<rparr>) = refreshes w"
  "refreshes (w\<lparr>execs := x\<rparr>) = refreshes w"
  "refreshes (w\<lparr>next_obj := n\<rparr>) = refreshes w"
  "refreshes (w\<lparr>sys_modules := sm\<rparr>) = refreshes w"
  "refreshes (w\<lparr>bases := b\<rparr>) = refreshes w"
  "refreshes (w\<lparr>declarative_utils := du\<rparr>) = refreshes w"
  by (simp_all add: reloaded_def imported_def written_def refreshes_def)

lemma readers_write_file [simp]:
  "reloaded (write_file p text w) = reloaded w"
  "imported (write_file p text w) = imported w"
  "written q (write_file p text w) = written q w + (if p = q then 1 else 0)"
  "refreshes (write_file p text w) = refreshes w"
  by (simp_all add: write_file_def)














subsection \<open>A lookup when the artifact is there\<close>







end
